theory Spec2Isabelle
  imports
    Main
    "HOL-Library.Sublist"
    "HOL-Library.Multiset"
    "HOL-Library.Word"
    "HOL-Library.Signed_Division"
begin

section \<open>Go strings and the library functions the program calls\<close>

text \<open>
  A Go \<open>string\<close> is a sequence of bytes, here a \<open>char list\<close>. The program calls
  \<open>strings.TrimSpace\<close>, \<open>strings.TrimPrefix\<close>, \<open>strings.IndexByte\<close>, \<open>strings.Join\<close>,
  \<open>strconv.Atoi\<close> and two compiled regular expressions; each is modelled at the byte
  level with the behaviour the Go library documents.
\<close>

subsection \<open>strings.TrimSpace\<close>

text \<open>
  \<open>TrimSpace\<close> removes leading and trailing runes for which \<open>unicode.IsSpace\<close> holds:
  tab, line feed, vertical tab, form feed, carriage return, space, U+0085, U+00A0,
  U+1680, U+2000 to U+200A, U+2028, U+2029, U+202F, U+205F and U+3000. A rune decoded
  from the front (or from the back) of a byte string is one of these exactly when
  the string starts (or ends) with the rune's UTF-8 encoding; any other byte
  sequence, valid or not, decodes to a rune that is not white space and stops the
  trimming. \<open>whiteSpace\<close> lists the encodings.
\<close>

definition whiteSpace :: "string list" where
  "whiteSpace =
    [[CHR 0x09], [CHR 0x0A], [CHR 0x0B], [CHR 0x0C], [CHR 0x0D], [CHR 0x20],
     [CHR 0xC2, CHR 0x85], [CHR 0xC2, CHR 0xA0],
     [CHR 0xE1, CHR 0x9A, CHR 0x80],
     [CHR 0xE2, CHR 0x80, CHR 0x80], [CHR 0xE2, CHR 0x80, CHR 0x81],
     [CHR 0xE2, CHR 0x80, CHR 0x82], [CHR 0xE2, CHR 0x80, CHR 0x83],
     [CHR 0xE2, CHR 0x80, CHR 0x84], [CHR 0xE2, CHR 0x80, CHR 0x85],
     [CHR 0xE2, CHR 0x80, CHR 0x86], [CHR 0xE2, CHR 0x80, CHR 0x87],
     [CHR 0xE2, CHR 0x80, CHR 0x88], [CHR 0xE2, CHR 0x80, CHR 0x89],
     [CHR 0xE2, CHR 0x80, CHR 0x8A],
     [CHR 0xE2, CHR 0x80, CHR 0xA8], [CHR 0xE2, CHR 0x80, CHR 0xA9],
     [CHR 0xE2, CHR 0x80, CHR 0xAF],
     [CHR 0xE2, CHR 0x81, CHR 0x9F],
     [CHR 0xE3, CHR 0x80, CHR 0x80]]"

text \<open>The width in bytes of the white-space rune at the front of \<open>s\<close>, or 0 if there is none.\<close>

definition spaceWidth :: "string list \<Rightarrow> string \<Rightarrow> nat" where
  "spaceWidth ws s = (case find (\<lambda>w. prefix w s) ws of Some w \<Rightarrow> length w | None \<Rightarrow> 0)"

text \<open>
  \<open>stripLeading ws\<close> drops encodings from \<open>ws\<close> off the front for as long as one is
  there (the loop of \<open>TrimLeftFunc\<close>).
\<close>

function stripLeading :: "string list \<Rightarrow> string \<Rightarrow> string" where
  "stripLeading ws s =
     (if spaceWidth ws s = 0 then s
      else stripLeading ws (drop (spaceWidth ws s) s))"
  by pat_completeness auto
termination
proof (relation "measure (\<lambda>(ws, s). length s)")
  fix ws :: "string list" and s :: string
  assume "spaceWidth ws s \<noteq> 0"
  then have "s \<noteq> []"
    by (auto simp: spaceWidth_def find_Some_iff split: option.splits)
  with \<open>spaceWidth ws s \<noteq> 0\<close>
  show "((ws, drop (spaceWidth ws s) s), (ws, s)) \<in> measure (\<lambda>(ws, s). length s)"
    by simp
qed simp

declare stripLeading.simps [simp del]

definition trimLeft :: "string \<Rightarrow> string" where
  "trimLeft s = stripLeading whiteSpace s"

text \<open>Trailing white space is found by decoding backwards: the same loop on the reversed bytes.\<close>

definition trimRight :: "string \<Rightarrow> string" where
  "trimRight s = rev (stripLeading (map rev whiteSpace) (rev s))"

definition TrimSpace :: "string \<Rightarrow> string" where
  "TrimSpace s = trimRight (trimLeft s)"

subsection \<open>strings.TrimPrefix, strings.IndexByte, strings.Join\<close>

definition TrimPrefix :: "string \<Rightarrow> string \<Rightarrow> string" where
  "TrimPrefix s p = (if prefix p s then drop (length p) s else s)"

text \<open>\<open>IndexByte s c\<close> is the index of the first \<open>c\<close> in \<open>s\<close>, or -1.\<close>

fun IndexByte :: "string \<Rightarrow> char \<Rightarrow> int" where
  "IndexByte [] c = - 1"
| "IndexByte (x # xs) c =
     (if x = c then 0 else (let i = IndexByte xs c in if i < 0 then - 1 else i + 1))"

fun Join :: "string list \<Rightarrow> string \<Rightarrow> string" where
  "Join [] sep = []"
| "Join [x] sep = x"
| "Join (x # y # ys) sep = x @ sep @ Join (y # ys) sep"

subsection \<open>strconv.Atoi\<close>

text \<open>
  \<open>Atoi\<close> reads an optional sign and then one or more decimal digits; anything else
  is a syntax error, and a value outside the 64-bit \<open>int\<close> is a range error. Both are
  \<open>None\<close> here: the program only tests \<open>err != nil\<close>.
\<close>

definition isDigit :: "char \<Rightarrow> bool" where
  "isDigit c = (48 \<le> (of_char c :: nat) \<and> (of_char c :: nat) \<le> 57)"

definition digitsValue :: "string \<Rightarrow> int" where
  "digitsValue ds = foldl (\<lambda>n ch. n * 10 + (int (of_char ch) - 48)) 0 ds"

definition parseDigits :: "string \<Rightarrow> int option" where
  "parseDigits ds = (if ds \<noteq> [] \<and> list_all isDigit ds then Some (digitsValue ds) else None)"

definition Atoi :: "string \<Rightarrow> int option" where
  "Atoi s =
     (let neg = (s \<noteq> [] \<and> hd s = CHR ''-'');
          ds = (if s \<noteq> [] \<and> (hd s = CHR ''-'' \<or> hd s = CHR ''+'') then tl s else s)
      in case parseDigits ds of
           None \<Rightarrow> None
         | Some v \<Rightarrow>
             (let n = (if neg then - v else v)
              in if - (2 ^ 63) \<le> n \<and> n < 2 ^ 63 then Some n else None))"

subsection \<open>The two regular expressions\<close>

text \<open>
  \<open>codeBlockRe\<close> is \<^verbatim>\<open>(?s)```(?:sh|bash|zsh)?\n(.*?)\n```\<close>. Go's regexp returns the
  leftmost match and, at that position, the match a backtracking engine finds
  first. \<open>lazyUntilFence\<close> is the lazy group followed by the closing fence: the
  shortest text after which a line feed and three backquotes follow.
\<close>

fun lazyUntilFence :: "string \<Rightarrow> string option" where
  "lazyUntilFence [] = None"
| "lazyUntilFence (c # cs) =
     (if prefix ''\<newline>```'' (c # cs) then Some []
      else map_option (Cons c) (lazyUntilFence cs))"

text \<open>
  After the opening backquotes, one language tag and the line feed: the text that
  follows, and the captured group if the fence closes.
\<close>

definition afterTag :: "string \<Rightarrow> string \<Rightarrow> string option" where
  "afterTag tag r =
     (if prefix (tag @ ''\<newline>'') r then lazyUntilFence (drop (length tag + 1) r) else None)"

text \<open>
  A match starting at the front of \<open>s\<close>: the alternatives \<open>sh\<close>, \<open>bash\<close>, \<open>zsh\<close> are
  tried in this order, then the empty tag. The result is the list Go returns: the
  whole match and the group.
\<close>

definition codeBlockAt :: "string \<Rightarrow> string list" where
  "codeBlockAt s =
     (if prefix ''```'' s then
        (case List.find (\<lambda>tag. afterTag tag (drop 3 s) \<noteq> None) [''sh'', ''bash'', ''zsh'', ''''] of
           None \<Rightarrow> []
         | Some tag \<Rightarrow>
             (let g = the (afterTag tag (drop 3 s))
              in [''```'' @ tag @ ''\<newline>'' @ g @ ''\<newline>```'', g]))
      else [])"

text \<open>\<open>codeBlockRe.FindStringSubmatch\<close>: the first position with a match; \<open>[]\<close> is Go's \<open>nil\<close>.\<close>

fun codeBlockRe_FindStringSubmatch :: "string \<Rightarrow> string list" where
  "codeBlockRe_FindStringSubmatch [] = []"
| "codeBlockRe_FindStringSubmatch (c # cs) =
     (if codeBlockAt (c # cs) \<noteq> [] then codeBlockAt (c # cs)
      else codeBlockRe_FindStringSubmatch cs)"

text \<open>
  \<open>firstLineRe\<close> is \<^verbatim>\<open>(?m)^[^\n#;][^\n]*\<close>: at the first position that starts a line
  (the start of the text, or just after a line feed) and holds a byte other than
  line feed, \<open>#\<close> and \<open>;\<close>, the rest of that line. \<open>atStart\<close> says whether the current
  position starts a line. \<open>FindString\<close> returns the empty string when nothing matches.
\<close>

fun firstLineScan :: "bool \<Rightarrow> string \<Rightarrow> string" where
  "firstLineScan atStart [] = []"
| "firstLineScan atStart (c # cs) =
     (if atStart \<and> c \<noteq> CHR ''\<newline>'' \<and> c \<noteq> CHR ''#'' \<and> c \<noteq> CHR '';''
      then takeWhile (\<lambda>x. x \<noteq> CHR ''\<newline>'') (c # cs)
      else firstLineScan (c = CHR ''\<newline>'') cs)"

definition firstLineRe_FindString :: "string \<Rightarrow> string" where
  "firstLineRe_FindString s = firstLineScan True s"

section \<open>The command sanitizer\<close>

text \<open>\<open>sanitizeToSingleCommand\<close>, statement by statement; \<open>trim[:i]\<close> is \<open>take (nat i) trim\<close>.\<close>

definition sanitizeToSingleCommand :: "string \<Rightarrow> string" where
  "sanitizeToSingleCommand s =
     (let trim = TrimSpace s;
          m = codeBlockRe_FindStringSubmatch trim;
          trim = (if length m = 2 then TrimSpace (m ! 1) else trim);
          l = firstLineRe_FindString trim;
          trim = (if l \<noteq> [] then TrimSpace l else trim);
          i = IndexByte trim (CHR ''\<newline>'');
          trim = (if i \<ge> 0 then TrimSpace (take (nat i) trim) else trim);
          trim = TrimPrefix trim ''$ '';
          trim = TrimPrefix trim ''> '';
          trim = TrimSpace trim
      in trim)"

section \<open>The data model\<close>

text \<open>
  The structs of the program, with their JSON-decoded fields. Field names carry a
  prefix where two structs share a name. \<open>time.Duration\<close> is an \<open>int64\<close> count of
  nanoseconds: a 64-bit word read with \<open>sint\<close>, whose \<open>+\<close> wraps. A Go \<open>error\<close> is one of
  the three kinds a call can meet.
\<close>

type_synonym duration = "64 word"

datatype goError =
    DoError string
  | StatusError int string
  | JsonError string

record candidatePart =
  part_Type :: string
  part_Text :: string

record candidateContent =
  content_Type :: string
  content_Parts :: "candidatePart list"

record candidate =
  cand_Content :: candidateContent

record contentPart =
  cpart_Type :: string
  cpart_Text :: string

record outputItem =
  item_Type :: string
  item_Text :: string
  item_Content :: "contentPart list"
  item_Role :: string

record responseResp =
  resp_ID :: string
  resp_Object :: string
  resp_Created :: int
  resp_Model :: string
  Output :: "outputItem list"
  OutputText :: string
  Candidates :: "candidate list"

record apiCallResult =
  Commands :: "string list"
  Duration :: duration
  RawResponse :: string
  Error :: "goError option"

section \<open>The response normalizer\<close>

text \<open>\<open>extractCandidates\<close>: the two nested loops append to \<open>out\<close>, then the output text is the fallback.\<close>

definition extractCandidates :: "responseResp \<Rightarrow> string list" where
  "extractCandidates rr =
     (let out = fold (\<lambda>c out.
                   fold (\<lambda>p out. if TrimSpace (part_Text p) \<noteq> [] then out @ [part_Text p] else out)
                        (content_Parts (cand_Content c)) out)
                 (Candidates rr) []
      in if length out = 0 \<and> OutputText rr \<noteq> [] then out @ [OutputText rr] else out)"

text \<open>The loop over \<open>rr.Output\<close> in \<open>makeAPICall\<close>.\<close>

definition outputCandidates :: "outputItem list \<Rightarrow> string list \<Rightarrow> string list" where
  "outputCandidates items candidates =
     fold (\<lambda>it candidates.
             if TrimSpace (item_Text it) \<noteq> [] then candidates @ [item_Text it]
             else if length (item_Content it) > 0 then
               fold (\<lambda>part candidates.
                       if TrimSpace (cpart_Text part) \<noteq> [] then candidates @ [cpart_Text part]
                       else candidates)
                    (item_Content it) candidates
             else candidates)
          items candidates"

text \<open>The candidates of one decoded response, as \<open>makeAPICall\<close> computes them (lines 349 to 365).\<close>

definition responseCandidates :: "responseResp \<Rightarrow> string list" where
  "responseCandidates rr =
     (let candidates = extractCandidates rr;
          candidates = (if length candidates = 0 \<and> OutputText rr \<noteq> [] then [OutputText rr]
                        else candidates);
          candidates = (if length candidates = 0 then outputCandidates (Output rr) candidates
                        else candidates)
      in candidates)"

text \<open>The loop that sanitizes the candidates and keeps the non-empty commands.\<close>

definition sanitizeAll :: "string list \<Rightarrow> string list" where
  "sanitizeAll candidates =
     fold (\<lambda>c commands.
             (let cmd = sanitizeToSingleCommand c
              in if cmd \<noteq> [] then commands @ [cmd] else commands))
          candidates []"

section \<open>The fan-out coordinator\<close>

text \<open>
  What one call meets outside the program. \<open>Reply\<close> is the result of
  \<open>httpClient.Do\<close>: a transport error or a response. \<open>Body\<close> is what \<open>ioReadAll\<close>
  returns (\<open>None\<close> when reading fails, which leaves \<open>respData\<close> nil), \<open>Decoded\<close> is
  what the JSON decoder makes of the body (\<open>json.Unmarshal\<close> on the bytes read, or
  the streaming decoder when reading failed; \<open>Inl\<close> is its error), and \<open>Elapsed\<close> is
  the value of \<open>time.Since(startTime)\<close> when the call builds its result. A nil
  \<open>RawResponse\<close> or \<open>Commands\<close> is the empty list: the program only takes their
  length and ranges over them.
\<close>

record httpResponse =
  StatusCode :: int
  Body :: "string option"
  Decoded :: "string + responseResp"

record call =
  Reply :: "string + httpResponse"
  Elapsed :: duration

type_synonym apiResult = "apiCallResult \<times> goError option"

definition bodyText :: "string option \<Rightarrow> string" where
  "bodyText respData = (case respData of None \<Rightarrow> [] | Some data \<Rightarrow> data)"

text \<open>\<open>makeAPICall\<close>: the value one goroutine sends on the channel.\<close>

definition makeAPICall :: "bool \<Rightarrow> call \<Rightarrow> apiResult" where
  "makeAPICall verbose c =
     (case Reply c of
        Inl e \<Rightarrow>
          (\<lparr>Commands = [], Duration = Elapsed c, RawResponse = [], Error = Some (DoError e)\<rparr>,
           Some (DoError e))
      | Inr resp \<Rightarrow>
          (let respData = Body resp;
               rawResponse = (if verbose then bodyText respData else [])
           in if StatusCode resp \<ge> 400 then
                (let err = StatusError (StatusCode resp) (bodyText respData)
                 in (\<lparr>Commands = [], Duration = Elapsed c, RawResponse = rawResponse,
                      Error = Some err\<rparr>, Some err))
              else
                (case Decoded resp of
                   Inl e \<Rightarrow>
                     (\<lparr>Commands = [], Duration = Elapsed c, RawResponse = rawResponse,
                       Error = Some (JsonError e)\<rparr>, Some (JsonError e))
                 | Inr rr \<Rightarrow>
                     (\<lparr>Commands = sanitizeAll (responseCandidates rr), Duration = Elapsed c,
                       RawResponse = rawResponse, Error = None\<rparr>, None))))"

text \<open>The loop that receives from the channel: it appends every result and keeps the first error.\<close>

fun collect :: "apiResult list \<Rightarrow> apiCallResult list \<times> goError option
    \<Rightarrow> apiCallResult list \<times> goError option" where
  "collect [] st = st"
| "collect (result # rest) (allResults, firstError) =
     collect rest
       (allResults @ [fst result],
        if snd result \<noteq> None \<and> firstError = None then snd result else firstError)"

text \<open>The deduplication: \<open>seen\<close> is the set of keys of the Go map, \<open>unique\<close> the slice.\<close>

fun dedupCommands :: "string list \<Rightarrow> string list \<times> string set \<Rightarrow> string list \<times> string set" where
  "dedupCommands [] st = st"
| "dedupCommands (cmd # cmds) (unique, seen) =
     (if cmd \<notin> seen then dedupCommands cmds (unique @ [cmd], insert cmd seen)
      else dedupCommands cmds (unique, seen))"

fun dedupResults :: "apiCallResult list \<Rightarrow> string list \<times> string set
    \<Rightarrow> string list \<times> string set" where
  "dedupResults [] st = st"
| "dedupResults (result # rest) st = dedupResults rest (dedupCommands (Commands result) st)"

definition totalDuration :: "apiCallResult list \<Rightarrow> duration" where
  "totalDuration allResults = fold (\<lambda>result total. total + Duration result) allResults 0"

text \<open>
  \<open>getCommands\<close>. Each of the \<open>numConcurrentCalls\<close> goroutines sends one result, and
  the channel delivers them in the order the calls complete: \<open>calls\<close> lists what
  the calls met, in that order, and its length is \<open>numConcurrentCalls\<close>. The
  token and the prompt are the same for every call and reach the result only
  through what the calls meet. \<open>Inl\<close> is the return \<open>(nil, firstError)\<close>.
\<close>

definition getCommands :: "bool \<Rightarrow> call list \<Rightarrow> goError + apiCallResult list" where
  "getCommands verbose calls =
     (let (allResults, firstError) = collect (map (makeAPICall verbose) calls) ([], None)
      in case firstError of
           Some err \<Rightarrow> Inl err
         | None \<Rightarrow>
             (let unique = fst (dedupResults allResults ([], {}));
                  combinedResult = \<lparr>Commands = unique, Duration = totalDuration allResults,
                                    RawResponse = [], Error = None\<rparr>
              in Inr (combinedResult # allResults)))"

section \<open>The verbose report\<close>

text \<open>
  What the program writes to standard output, one value per print statement; a
  duration or a count printed through a format verb is kept as the value.
\<close>

datatype outLine =
    Text string
  | CommandsGenerated nat
  | TotalTime duration
  | ConcurrentCalls nat
  | AverageTime duration
  | RequestTime duration
  | Numbered nat string
  | CallResponse nat string

text \<open>
  Go's \<open>/\<close> on \<open>int64\<close>: the quotient of the signed values, rounded towards zero.
  The program divides only by a positive length.
\<close>

definition durationDiv :: "duration \<Rightarrow> duration \<Rightarrow> duration" where
  "durationDiv a b = word_of_int (sint a sdiv sint b)"

definition printVerboseOutput :: "apiCallResult list \<Rightarrow> outLine list" where
  "printVerboseOutput results =
     (case results of
        [] \<Rightarrow> []
      | combinedResult # individualResults \<Rightarrow>
          [Text ''=== VERBOSE OUTPUT ==='',
           CommandsGenerated (length (Commands combinedResult))]
          @ (if length individualResults > 0 then
               [TotalTime (Duration combinedResult),
                ConcurrentCalls (length individualResults),
                AverageTime (durationDiv (Duration combinedResult)
                               (of_nat (length individualResults)))]
             else [RequestTime (Duration combinedResult)])
          @ [Text ''\<newline>Generated commands:'']
          @ map (\<lambda>(i, cmd). Numbered (i + 1) cmd) (enumerate 0 (Commands combinedResult))
          @ (let raws = concat (map (\<lambda>(i, r). if length (RawResponse r) > 0
                                                 then [CallResponse (i + 1) (RawResponse r)] else [])
                                    (enumerate 0 individualResults))
             in raws @ (if length raws = 0
                        then [Text ''\<newline>Note: Raw API responses not captured (may be due to error or non-verbose mode)'']
                        else []))
          @ [Text ''=== END VERBOSE OUTPUT ===''])"

section \<open>The prompt builder, the selection and the main program\<close>

text \<open>\<open>buildPrompt\<close>; \<open>ctx\<close> holds the entries of the context map in the order the loop visits them.\<close>

definition ctxLookup :: "(string \<times> string) list \<Rightarrow> string \<Rightarrow> string" where
  "ctxLookup ctx k = (case map_of ctx k of None \<Rightarrow> [] | Some v \<Rightarrow> v)"

definition buildPrompt :: "string \<Rightarrow> (string \<times> string) list \<Rightarrow> string" where
  "buildPrompt task ctx =
     ''You are a shell command generator.\<newline>''
     @ ''Output exactly one safe, single-line command for POSIX '' @ ctxLookup ctx ''shell'' @ ''\<newline>''
     @ ''Rules:\<newline>''
     @ ''- NO explanations or extra text. Only the command.\<newline>''
     @ ''- Avoid destructive actions (rm -rf, chmod -R, sudo, moving/deleting) unless explicitly requested.\<newline>''
     @ ''- Prefer read-only queries (ls/find/stat/du/grep) when unsure.\<newline>''
     @ ''- Use utilities commonly available on Linux/macOS.\<newline>''
     @ ''- Must run correctly in the current working directory.\<newline>''
     @ ''- If paths contain spaces, quote them safely.\<newline>''
     @ ''- If the task is ambiguous, choose the safest widely useful command.\<newline>''
     @ ''\<newline>Environment context:\<newline>''
     @ concat (map (\<lambda>(k, v). if v = [] then [] else ''- '' @ k @ '': '' @ v @ ''\<newline>'') ctx)
     @ ''\<newline>Task:\<newline>''
     @ task
     @ ''\<newline>''"

text \<open>\<open>selectCommand\<close>: the menu it prints, and the command chosen by the line read from standard input.\<close>

definition selectCommand :: "string list \<Rightarrow> string \<Rightarrow> outLine list \<times> (string + string)" where
  "selectCommand cmds input =
     ([Text ''Select a command:'']
        @ map (\<lambda>(i, c). Numbered (i + 1) c) (enumerate 0 cmds)
        @ [Text ''Enter number: ''],
      (let line = TrimSpace input
       in case Atoi line of
            None \<Rightarrow> Inl ''invalid selection''
          | Some idx \<Rightarrow>
              if idx < 1 \<or> idx > int (length cmds) then Inl ''invalid selection''
              else Inr (cmds ! nat (idx - 1))))"

text \<open>
  The flag loop of \<open>main\<close>, from index \<open>i\<close>, with the three variables it updates.
  The \<open>break\<close> of the \<open>default\<close> case leaves the \<open>switch\<close> statement, as Go defines
  it, so the loop goes on to the next argument. \<open>Inl\<close> is the message of an exit
  with code 2.
\<close>

function parseFlags :: "string list \<Rightarrow> nat \<Rightarrow> bool \<times> int \<times> nat \<Rightarrow> string + bool \<times> int \<times> nat" where
  "parseFlags args i (verbose, numCommands, taskStart) =
     (if i < length args then
        (if args ! i = ''-v'' then parseFlags args (i + 1) (True, numCommands, i + 1)
         else if args ! i = ''-n'' then
           (if i + 1 \<ge> length args then Inl ''Error: -n requires a number argument''
            else
              (case Atoi (args ! (i + 1)) of
                 None \<Rightarrow> Inl ''Error: -n requires a positive integer''
               | Some n \<Rightarrow>
                   if n < 1 then Inl ''Error: -n requires a positive integer''
                   else parseFlags args (i + 2) (verbose, n, i + 2)))
         else parseFlags args (i + 1) (verbose, numCommands, i))
      else Inr (verbose, numCommands, taskStart))"
  by pat_completeness auto
termination
  by (relation "measure (\<lambda>(args, i, st). length args - i)") auto

declare parseFlags.simps [simp del]

text \<open>
  \<open>main\<close> up to line 125: the usage errors, or the verbose flag, the number of
  calls and the task description handed to \<open>buildPrompt\<close>. \<open>token\<close> is the value
  of the environment variable.
\<close>

definition parseArgs :: "string list \<Rightarrow> string \<Rightarrow> string + bool \<times> int \<times> string" where
  "parseArgs args token =
     (if length args < 2 then
        Inl ''Usage: ai [-v] [-n <number>] <task description>\<newline>Example: ai find biggest file here\<newline>       ai -v list files in current dir\<newline>       ai -n 5 find files here''
      else
        (case parseFlags args 1 (False, 3, 1) of
           Inl msg \<Rightarrow> Inl msg
         | Inr (verbose, numCommands, taskStart) \<Rightarrow>
             if taskStart \<ge> length args then Inl ''Usage: ai [-v] [-n <number>] <task description>''
             else if token = [] then Inl ''Error: OPENAI_TOKEN not set''
             else Inr (verbose, numCommands, Join (drop taskStart args) '' '')))"

text \<open>
  The world around one run: the arguments, the token, the context entries, what
  the \<open>k\<close>-th completed call meets for a token and a prompt, the line typed at the
  menu, and what running a command through the shell gives.
\<close>

datatype runResult = Finished | ExitError int | LaunchError string

record world =
  Args :: "string list"
  Token :: string
  Context :: "(string \<times> string) list"
  Net :: "string \<Rightarrow> string \<Rightarrow> nat \<Rightarrow> call"
  Stdin :: string
  Run :: "string \<Rightarrow> runResult"

datatype errLine =
    Message string
  | ApiError goError
  | SelectionError string
  | ExecutionError string

text \<open>
  What a run does: its exit code, the two output streams, the number of API
  requests it sent and the command it executed, if any.
\<close>

record outcome =
  exitCode :: int
  stderr :: "errLine list"
  stdout :: "outLine list"
  requests :: nat
  executed :: "string option"

definition main :: "world \<Rightarrow> outcome" where
  "main w =
     (case parseArgs (Args w) (Token w) of
        Inl msg \<Rightarrow>
          \<lparr>exitCode = 2, stderr = [Message msg], stdout = [], requests = 0, executed = None\<rparr>
      | Inr (verbose, numCommands, task) \<Rightarrow>
          (let prompt = buildPrompt task (Context w);
               calls = map (Net w (Token w) prompt) [0..<nat numCommands]
           in case getCommands verbose calls of
                Inl err \<Rightarrow>
                  \<lparr>exitCode = 1, stderr = [ApiError err], stdout = [],
                   requests = length calls, executed = None\<rparr>
              | Inr results \<Rightarrow>
                  (case results of
                     [] \<Rightarrow>
                       \<lparr>exitCode = 1, stderr = [Message ''No commands generated''], stdout = [],
                        requests = length calls, executed = None\<rparr>
                   | combined # individual \<Rightarrow>
                       if length (Commands combined) = 0 then
                         \<lparr>exitCode = 1, stderr = [Message ''No commands generated''], stdout = [],
                          requests = length calls, executed = None\<rparr>
                       else
                         (let out = (if verbose then printVerboseOutput results else []);
                              (menu, sel) = selectCommand (Commands combined) (Stdin w)
                          in case sel of
                               Inl e \<Rightarrow>
                                 \<lparr>exitCode = 1, stderr = [SelectionError e], stdout = out @ menu,
                                  requests = length calls, executed = None\<rparr>
                             | Inr choice \<Rightarrow>
                                 (case Run w choice of
                                    Finished \<Rightarrow>
                                      \<lparr>exitCode = 0, stderr = [],
                                       stdout = out @ menu @ [Text choice],
                                       requests = length calls, executed = Some choice\<rparr>
                                  | ExitError code \<Rightarrow>
                                      \<lparr>exitCode = code, stderr = [],
                                       stdout = out @ menu @ [Text choice],
                                       requests = length calls, executed = Some choice\<rparr>
                                  | LaunchError e \<Rightarrow>
                                      \<lparr>exitCode = 1, stderr = [ExecutionError e],
                                       stdout = out @ menu @ [Text choice],
                                       requests = length calls, executed = None\<rparr>)))))"

section \<open>Notions used in the statements\<close>

text \<open>
  An already-clean single-line command: no line feed, no white space at either
  end, and no prompt marker in front.
\<close>

definition cleanCommand :: "string \<Rightarrow> bool" where
  "cleanCommand x =
     (CHR ''\<newline>'' \<notin> set x \<and> TrimSpace x = x \<and> \<not> prefix ''$ '' x \<and> \<not> prefix ''> '' x)"

text \<open>The first occurrence of every element, in the order of the list.\<close>

definition firstOccurrences :: "'a list \<Rightarrow> 'a list" where
  "firstOccurrences xs = rev (remdups (rev xs))"

text \<open>
  The failure of a call, read off what the call met: a transport error, a status
  code of 400 or more, or a body the decoder rejects.
\<close>

definition callFailure :: "call \<Rightarrow> goError option" where
  "callFailure c =
     (case Reply c of
        Inl e \<Rightarrow> Some (DoError e)
      | Inr resp \<Rightarrow>
          if StatusCode resp \<ge> 400
          then Some (StatusError (StatusCode resp) (bodyText (Body resp)))
          else (case Decoded resp of Inl e \<Rightarrow> Some (JsonError e) | Inr rr \<Rightarrow> None))"

text \<open>
  A failed call in the words of the specification: a network error, a status
  outside 200 to 299, or a decode failure.
\<close>

definition specFailure :: "call \<Rightarrow> bool" where
  "specFailure c =
     (case Reply c of
        Inl e \<Rightarrow> True
      | Inr resp \<Rightarrow> StatusCode resp < 200 \<or> StatusCode resp \<ge> 300 \<or> isl (Decoded resp))"

text \<open>The non-blank part texts of the candidates collection, in document order.\<close>

definition partTexts :: "responseResp \<Rightarrow> string list" where
  "partTexts rr =
     concat (map (\<lambda>c. filter (\<lambda>t. TrimSpace t \<noteq> [])
                         (map part_Text (content_Parts (cand_Content c))))
                 (Candidates rr))"

text \<open>The per-call results, in the order they are received.\<close>

definition resultsOf :: "bool \<Rightarrow> call list \<Rightarrow> apiCallResult list" where
  "resultsOf verbose calls = map (\<lambda>c. fst (makeAPICall verbose c)) calls"

text \<open>The decoding of the JSON object \<open>{}\<close>: every field has its zero value.\<close>

definition emptyResp :: responseResp where
  "emptyResp = \<lparr>resp_ID = [], resp_Object = [], resp_Created = 0, resp_Model = [],
                 Output = [], OutputText = [], Candidates = []\<rparr>"

section \<open>Properties of the string functions\<close>

lemma spaceWidth_zero_iff:
  assumes "\<forall>w\<in>set ws. w \<noteq> []"
  shows "spaceWidth ws s = 0 \<longleftrightarrow> (\<forall>w\<in>set ws. \<not> prefix w s)"
proof (cases "find (\<lambda>w. prefix w s) ws")
  case None
  then have "spaceWidth ws s = 0" by (simp add: spaceWidth_def)
  moreover from None have "\<forall>w\<in>set ws. \<not> prefix w s" by (simp add: find_None_iff)
  ultimately show ?thesis by simp
next
  case (Some w)
  then have "w \<in> set ws" "prefix w s"
    by (auto simp: find_Some_iff)
  with assms Some show ?thesis by (auto simp: spaceWidth_def)
qed

lemma stripLeading_fixed: "spaceWidth ws s = 0 \<Longrightarrow> stripLeading ws s = s"
  by (simp add: stripLeading.simps)

lemma stripLeading_drop: "\<exists>k. stripLeading ws s = drop k s"
proof (induction ws s rule: stripLeading.induct)
  case (1 ws s)
  show ?case
  proof (cases "spaceWidth ws s = 0")
    case True
    then have "stripLeading ws s = drop 0 s" by (simp add: stripLeading.simps)
    then show ?thesis by blast
  next
    case False
    with 1 obtain k where "stripLeading ws (drop (spaceWidth ws s) s) = drop k (drop (spaceWidth ws s) s)"
      by blast
    with False have "stripLeading ws s = drop (k + spaceWidth ws s) s"
      by (simp add: stripLeading.simps [of ws s])
    then show ?thesis by blast
  qed
qed

lemma stripLeading_done: "spaceWidth ws (stripLeading ws s) = 0"
proof (induction ws s rule: stripLeading.induct)
  case (1 ws s)
  then show ?case
    by (cases "spaceWidth ws s = 0") (simp_all add: stripLeading.simps [of ws s])
qed

lemma stripLeading_idem: "stripLeading ws (stripLeading ws s) = stripLeading ws s"
  by (simp add: stripLeading_fixed stripLeading_done)

lemma whiteSpace_nonempty: "\<forall>w\<in>set whiteSpace. w \<noteq> []"
  by (simp add: whiteSpace_def)

lemma trimLeft_suffix: "\<exists>k. trimLeft s = drop k s"
  by (simp add: trimLeft_def stripLeading_drop)

lemma trimRight_prefix: "\<exists>k. trimRight s = take k s"
proof -
  obtain k where "stripLeading (map rev whiteSpace) (rev s) = drop k (rev s)"
    using stripLeading_drop by blast
  then have "trimRight s = take (length s - k) s"
    by (simp add: trimRight_def rev_drop)
  then show ?thesis by blast
qed

lemma trimRight_idem: "trimRight (trimRight s) = trimRight s"
  by (simp add: trimRight_def stripLeading_idem)

lemma trimLeft_trimRight:
  assumes "spaceWidth whiteSpace s = 0"
  shows "trimLeft (trimRight s) = trimRight s"
proof -
  obtain k where k: "trimRight s = take k s"
    using trimRight_prefix by blast
  have "\<forall>w\<in>set whiteSpace. \<not> prefix w (take k s)"
  proof
    fix w assume w: "w \<in> set whiteSpace"
    with assms have "\<not> prefix w s"
      by (simp add: spaceWidth_zero_iff [OF whiteSpace_nonempty])
    moreover have "prefix (take k s) s" by (rule take_is_prefix)
    ultimately show "\<not> prefix w (take k s)"
      using prefix_order.trans by blast
  qed
  then have "spaceWidth whiteSpace (trimRight s) = 0"
    by (simp add: k spaceWidth_zero_iff [OF whiteSpace_nonempty])
  then show ?thesis
    by (simp add: trimLeft_def stripLeading_fixed)
qed

lemma TrimSpace_idem: "TrimSpace (TrimSpace s) = TrimSpace s"
proof -
  have "spaceWidth whiteSpace (trimLeft s) = 0"
    by (simp add: trimLeft_def stripLeading_done)
  then have "trimLeft (trimRight (trimLeft s)) = trimRight (trimLeft s)"
    by (rule trimLeft_trimRight)
  then show ?thesis
    by (simp add: TrimSpace_def trimRight_idem)
qed

lemma set_TrimSpace: "set (TrimSpace s) \<subseteq> set s"
proof -
  obtain k where k: "trimLeft s = drop k s" using trimLeft_suffix by blast
  obtain j where j: "trimRight (trimLeft s) = take j (trimLeft s)" using trimRight_prefix by blast
  have "set (take j (drop k s)) \<subseteq> set (drop k s)" by (rule set_take_subset)
  also have "\<dots> \<subseteq> set s" by (rule set_drop_subset)
  finally have "set (take j (trimLeft s)) \<subseteq> set s" by (simp add: k)
  then show ?thesis by (simp add: TrimSpace_def j)
qed

lemma set_TrimPrefix: "set (TrimPrefix s p) \<subseteq> set s"
  by (simp add: TrimPrefix_def set_drop_subset)

lemma IndexByte_nonneg_iff: "IndexByte s c \<ge> 0 \<longleftrightarrow> c \<in> set s"
  by (induction s) (auto simp: Let_def)

lemma take_IndexByte: "c \<in> set s \<Longrightarrow> take (nat (IndexByte s c)) s = takeWhile (\<lambda>x. x \<noteq> c) s"
proof (induction s)
  case Nil
  then show ?case by simp
next
  case (Cons x xs)
  show ?case
  proof (cases "x = c")
    case True
    then show ?thesis by simp
  next
    case False
    with Cons.prems have "c \<in> set xs" by simp
    then have "IndexByte xs c \<ge> 0" by (simp add: IndexByte_nonneg_iff)
    with False Cons.IH [OF \<open>c \<in> set xs\<close>] show ?thesis
      by (simp add: Let_def nat_add_distrib)
  qed
qed

lemma notin_take_IndexByte: "c \<notin> set (take (nat (IndexByte s c)) s)"
proof (cases "c \<in> set s")
  case True
  then have "take (nat (IndexByte s c)) s = takeWhile (\<lambda>x. x \<noteq> c) s"
    by (rule take_IndexByte)
  moreover have "c \<notin> set (takeWhile (\<lambda>x. x \<noteq> c) s)"
    by (auto dest: set_takeWhileD)
  ultimately show ?thesis by simp
next
  case False
  then show ?thesis by (auto dest: in_set_takeD)
qed

section \<open>Properties of the sanitizer\<close>

lemma sanitize_no_newline: "CHR ''\<newline>'' \<notin> set (sanitizeToSingleCommand s)"
proof -
  define nl where "nl = CHR ''\<newline>''"
  have cut: "nl \<notin> set (if IndexByte t nl \<ge> 0 then TrimSpace (take (nat (IndexByte t nl)) t) else t)" for t
  proof (cases "IndexByte t nl \<ge> 0")
    case True
    have "nl \<notin> set (take (nat (IndexByte t nl)) t)" by (rule notin_take_IndexByte)
    with set_TrimSpace have "nl \<notin> set (TrimSpace (take (nat (IndexByte t nl)) t))" by blast
    with True show ?thesis by simp
  next
    case False
    then show ?thesis by (simp add: IndexByte_nonneg_iff)
  qed
  have out: "nl \<notin> set u \<Longrightarrow> nl \<notin> set (TrimSpace (TrimPrefix (TrimPrefix u ''$ '') ''> ''))" for u
    using set_TrimSpace set_TrimPrefix by blast
  show ?thesis
    unfolding sanitizeToSingleCommand_def Let_def nl_def [symmetric]
    by (rule out) (rule cut)
qed

lemma sanitize_trimmed: "TrimSpace (sanitizeToSingleCommand s) = sanitizeToSingleCommand s"
  by (simp add: sanitizeToSingleCommand_def Let_def TrimSpace_idem)

lemma afterTag_None: "CHR ''\<newline>'' \<notin> set r \<Longrightarrow> afterTag tag r = None"
  by (auto simp: afterTag_def prefix_def)

lemma codeBlockAt_Nil: "CHR ''\<newline>'' \<notin> set s \<Longrightarrow> codeBlockAt s = []"
proof -
  assume "CHR ''\<newline>'' \<notin> set s"
  then have "CHR ''\<newline>'' \<notin> set (drop 3 s)" by (auto dest: in_set_dropD)
  then show ?thesis by (simp add: codeBlockAt_def afterTag_None)
qed

lemma codeBlockRe_no_match:
  "CHR ''\<newline>'' \<notin> set s \<Longrightarrow> codeBlockRe_FindStringSubmatch s = []"
  by (induction s) (simp_all add: codeBlockAt_Nil)

lemma firstLineScan_inside: "CHR ''\<newline>'' \<notin> set s \<Longrightarrow> firstLineScan False s = []"
  by (induction s) auto

lemma firstLineRe_single_line:
  "CHR ''\<newline>'' \<notin> set s \<Longrightarrow> firstLineRe_FindString s = [] \<or> firstLineRe_FindString s = s"
proof (cases s)
  case Nil
  then show ?thesis by (simp add: firstLineRe_FindString_def)
next
  case (Cons c cs)
  assume nl: "CHR ''\<newline>'' \<notin> set s"
  then have "takeWhile (\<lambda>x. x \<noteq> CHR ''\<newline>'') s = s"
    by (auto simp: takeWhile_eq_all_conv)
  with nl Cons show ?thesis
    by (auto simp: firstLineRe_FindString_def firstLineScan_inside)
qed

lemma sanitize_clean: "cleanCommand x \<Longrightarrow> sanitizeToSingleCommand x = x"
proof -
  assume c: "cleanCommand x"
  then have nl: "CHR ''\<newline>'' \<notin> set x" and tr: "TrimSpace x = x"
    and p1: "\<not> prefix ''$ '' x" and p2: "\<not> prefix ''> '' x"
    by (simp_all add: cleanCommand_def)
  have m: "codeBlockRe_FindStringSubmatch x = []" using nl by (rule codeBlockRe_no_match)
  have i: "\<not> IndexByte x (CHR ''\<newline>'') \<ge> 0" using nl by (simp add: IndexByte_nonneg_iff)
  from firstLineRe_single_line [OF nl] show ?thesis
  proof
    assume "firstLineRe_FindString x = []"
    with m i p1 p2 tr show ?thesis
      by (simp add: sanitizeToSingleCommand_def Let_def TrimPrefix_def)
  next
    assume "firstLineRe_FindString x = x"
    with m i p1 p2 tr show ?thesis
      by (cases "x = []") (simp_all add: sanitizeToSingleCommand_def Let_def TrimPrefix_def)
  qed
qed

lemma sanitize_idempotent_unless_marker:
  assumes "\<not> prefix ''$ '' (sanitizeToSingleCommand x)"
    and "\<not> prefix ''> '' (sanitizeToSingleCommand x)"
  shows "sanitizeToSingleCommand (sanitizeToSingleCommand x) = sanitizeToSingleCommand x"
proof -
  have "cleanCommand (sanitizeToSingleCommand x)"
    using assms by (simp add: cleanCommand_def sanitize_no_newline sanitize_trimmed)
  then show ?thesis by (rule sanitize_clean)
qed

lemma sanitize_prompt_markers_nest:
  "sanitizeToSingleCommand ''$ $ ls'' = ''$ ls'' \<and> sanitizeToSingleCommand ''$ ls'' = ''ls''"
  by code_simp

section \<open>Properties of the normalizer\<close>

lemma extractCandidates_parts:
  "fold (\<lambda>c out.
           fold (\<lambda>p out. if TrimSpace (part_Text p) \<noteq> [] then out @ [part_Text p] else out)
                (content_Parts (cand_Content c)) out)
        cs acc
   = acc @ concat (map (\<lambda>c. filter (\<lambda>t. TrimSpace t \<noteq> [])
                                (map part_Text (content_Parts (cand_Content c)))) cs)"
proof -
  have inner: "fold (\<lambda>p out. if TrimSpace (part_Text p) \<noteq> [] then out @ [part_Text p] else out) ps acc
               = acc @ filter (\<lambda>t. TrimSpace t \<noteq> []) (map part_Text ps)" for ps acc
    by (induction ps arbitrary: acc) simp_all
  show ?thesis
    by (induction cs arbitrary: acc) (simp_all add: inner)
qed

lemma extractCandidates_eq:
  "extractCandidates rr =
     (if partTexts rr = [] \<and> OutputText rr \<noteq> [] then [OutputText rr] else partTexts rr)"
proof -
  have "fold (\<lambda>c out.
           fold (\<lambda>p out. if TrimSpace (part_Text p) \<noteq> [] then out @ [part_Text p] else out)
                (content_Parts (cand_Content c)) out)
        (Candidates rr) [] = partTexts rr"
    unfolding extractCandidates_parts partTexts_def by (rule append_Nil)
  then show ?thesis
    unfolding extractCandidates_def Let_def by (cases "partTexts rr") simp_all
qed

lemma responseCandidates_eq:
  "responseCandidates rr =
     (if partTexts rr \<noteq> [] then partTexts rr
      else if OutputText rr \<noteq> [] then [OutputText rr]
      else outputCandidates (Output rr) [])"
proof (cases "partTexts rr = []")
  case True
  then show ?thesis
    unfolding responseCandidates_def Let_def extractCandidates_eq
    by (cases "OutputText rr") simp_all
next
  case False
  then show ?thesis
    unfolding responseCandidates_def Let_def extractCandidates_eq
    by simp
qed

lemma candidates_take_precedence:
  "partTexts rr \<noteq> [] \<Longrightarrow> responseCandidates rr = partTexts rr"
  by (simp add: responseCandidates_eq)

lemma sanitizeAll_eq:
  "sanitizeAll cs = filter (\<lambda>cmd. cmd \<noteq> []) (map sanitizeToSingleCommand cs)"
proof -
  have "fold (\<lambda>c commands.
             (let cmd = sanitizeToSingleCommand c
              in if cmd \<noteq> [] then commands @ [cmd] else commands)) cs acc
        = acc @ filter (\<lambda>cmd. cmd \<noteq> []) (map sanitizeToSingleCommand cs)" for acc
    by (induction cs arbitrary: acc) (simp_all add: Let_def)
  then show ?thesis by (simp add: sanitizeAll_def)
qed

section \<open>Properties of the collection and deduplication loops\<close>

lemma collect_eq:
  "collect rs (a, e) =
     (a @ map fst rs,
      case e of Some x \<Rightarrow> Some x
      | None \<Rightarrow> (case find (\<lambda>r. snd r \<noteq> None) rs of None \<Rightarrow> None | Some r \<Rightarrow> snd r))"
proof (induction rs arbitrary: a e)
  case Nil
  then show ?case by (simp split: option.splits)
next
  case (Cons r rs)
  show ?case
    by (cases e; cases "snd r") (simp_all add: Cons.IH)
qed

lemma makeAPICall_error: "snd (makeAPICall verbose c) = callFailure c"
  by (simp add: makeAPICall_def callFailure_def Let_def split: sum.splits)

lemma makeAPICall_commands:
  "cmd \<in> set (Commands (fst (makeAPICall verbose c))) \<Longrightarrow> \<exists>x. cmd = sanitizeToSingleCommand x"
  by (auto simp: makeAPICall_def Let_def sanitizeAll_eq split: sum.splits if_splits)

lemma makeAPICall_Duration: "Duration (fst (makeAPICall verbose c)) = Elapsed c"
  by (simp add: makeAPICall_def Let_def split: sum.splits)

lemma remdups_drop_seen: "c \<in> set ys \<Longrightarrow> remdups (xs @ c # ys) = remdups (xs @ ys)"
  by (induction xs) auto

lemma dedupCommands_eq:
  "distinct u \<Longrightarrow> dedupCommands cmds (u, set u) = (firstOccurrences (u @ cmds), set u \<union> set cmds)"
proof (induction cmds arbitrary: u)
  case Nil
  then show ?case by (simp add: firstOccurrences_def distinct_remdups_id)
next
  case (Cons c cmds)
  show ?case
  proof (cases "c \<in> set u")
    case True
    with Cons.IH [OF Cons.prems] show ?thesis
      by (auto simp: firstOccurrences_def remdups_drop_seen)
  next
    case False
    with Cons.prems have "distinct (u @ [c])" by simp
    from Cons.IH [OF this] False show ?thesis by simp
  qed
qed

lemma dedupCommands_append:
  "dedupCommands (xs @ ys) st = dedupCommands ys (dedupCommands xs st)"
proof (induction xs arbitrary: st)
  case Nil
  then show ?case by simp
next
  case (Cons x xs)
  then show ?case by (cases st) simp
qed

lemma dedupResults_concat:
  "dedupResults rs st = dedupCommands (concat (map Commands rs)) st"
  by (induction rs arbitrary: st) (simp_all add: dedupCommands_append)

lemma dedupResults_eq:
  "fst (dedupResults rs ([], {})) = firstOccurrences (concat (map Commands rs))"
  using dedupCommands_eq [of "[]" "concat (map Commands rs)"]
  by (simp add: dedupResults_concat)

lemma distinct_firstOccurrences: "distinct (firstOccurrences xs)"
  by (simp add: firstOccurrences_def)

lemma set_firstOccurrences: "set (firstOccurrences xs) = set xs"
  by (simp add: firstOccurrences_def)

lemma resultsOf_commands:
  "r \<in> set (resultsOf verbose calls) \<Longrightarrow> cmd \<in> set (Commands r) \<Longrightarrow>
   \<exists>x. cmd = sanitizeToSingleCommand x"
  by (auto simp: resultsOf_def dest: makeAPICall_commands)

lemma resultsOf_Durations: "map Duration (resultsOf verbose calls) = map Elapsed calls"
  by (simp add: resultsOf_def makeAPICall_Duration)

lemma length_resultsOf: "length (resultsOf verbose calls) = length calls"
  by (simp add: resultsOf_def)

lemma getCommands_success:
  assumes "\<forall>c\<in>set calls. callFailure c = None"
  shows "getCommands verbose calls =
           Inr (\<lparr>Commands = firstOccurrences (concat (map Commands (resultsOf verbose calls))),
                 Duration = totalDuration (resultsOf verbose calls),
                 RawResponse = [], Error = None\<rparr> # resultsOf verbose calls)"
proof -
  have "find (\<lambda>r. snd r \<noteq> None) (map (makeAPICall verbose) calls) = None"
    using assms by (simp add: find_None_iff makeAPICall_error)
  then show ?thesis
    by (simp add: getCommands_def collect_eq dedupResults_eq resultsOf_def comp_def)
qed

lemma getCommands_failure:
  assumes "calls = pre @ c # post" and "\<forall>p\<in>set pre. callFailure p = None"
    and "callFailure c = Some e"
  shows "getCommands verbose calls = Inl e"
proof -
  have "find (\<lambda>r. snd r \<noteq> None) (map (makeAPICall verbose) calls) = Some (makeAPICall verbose c)"
    using assms by (induction pre arbitrary: calls) (simp_all add: makeAPICall_error)
  then show ?thesis
    using assms(3) by (simp add: getCommands_def collect_eq makeAPICall_error)
qed

lemma getCommands_Inr_iff:
  "(\<exists>results. getCommands verbose calls = Inr results) \<longleftrightarrow> (\<forall>c\<in>set calls. callFailure c = None)"
proof
  assume "\<exists>results. getCommands verbose calls = Inr results"
  then obtain results where r: "getCommands verbose calls = Inr results" by blast
  show "\<forall>c\<in>set calls. callFailure c = None"
  proof (rule ccontr)
    assume "\<not> (\<forall>c\<in>set calls. callFailure c = None)"
    then have "\<exists>c\<in>set calls. callFailure c \<noteq> None" by blast
    then obtain pre c post where "calls = pre @ c # post" "callFailure c \<noteq> None"
      "\<forall>p\<in>set pre. \<not> callFailure p \<noteq> None"
      using split_list_first_prop [of calls "\<lambda>c. callFailure c \<noteq> None"] by blast
    then obtain e where "getCommands verbose calls = Inl e"
      using getCommands_failure [of calls pre c post _ verbose] by auto
    with r show False by simp
  qed
next
  assume "\<forall>c\<in>set calls. callFailure c = None"
  then show "\<exists>results. getCommands verbose calls = Inr results"
    by (simp add: getCommands_success)
qed

lemma getCommands_Inr_results:
  assumes "getCommands verbose calls = Inr results"
  shows "(\<forall>c\<in>set calls. callFailure c = None)
         \<and> results = \<lparr>Commands = firstOccurrences (concat (map Commands (resultsOf verbose calls))),
                       Duration = totalDuration (resultsOf verbose calls),
                       RawResponse = [], Error = None\<rparr> # resultsOf verbose calls"
proof -
  from assms have ok: "\<forall>c\<in>set calls. callFailure c = None"
    using getCommands_Inr_iff by blast
  have "getCommands verbose calls
        = Inr (\<lparr>Commands = firstOccurrences (concat (map Commands (resultsOf verbose calls))),
                       Duration = totalDuration (resultsOf verbose calls),
                       RawResponse = [], Error = None\<rparr> # resultsOf verbose calls)"
    by (rule getCommands_success [OF ok])
  with assms have "Inr results
        = (Inr (\<lparr>Commands = firstOccurrences (concat (map Commands (resultsOf verbose calls))),
                       Duration = totalDuration (resultsOf verbose calls),
                       RawResponse = [], Error = None\<rparr> # resultsOf verbose calls) :: goError + apiCallResult list)"
    by (simp only:)
  then have "results = \<lparr>Commands = firstOccurrences (concat (map Commands (resultsOf verbose calls))),
                       Duration = totalDuration (resultsOf verbose calls),
                       RawResponse = [], Error = None\<rparr> # resultsOf verbose calls"
    by (simp only: sum.inject)
  with ok show ?thesis by blast
qed

lemma getCommands_Inr_combined:
  assumes "getCommands verbose calls = Inr (combined # individual)"
  shows "Commands combined = firstOccurrences (concat (map Commands (resultsOf verbose calls)))"
    and "Duration combined = totalDuration (resultsOf verbose calls)"
    and "individual = resultsOf verbose calls"
    and "\<forall>c\<in>set calls. callFailure c = None"
proof -
  from getCommands_Inr_results [OF assms]
  have eq: "combined # individual
            = \<lparr>Commands = firstOccurrences (concat (map Commands (resultsOf verbose calls))),
               Duration = totalDuration (resultsOf verbose calls),
               RawResponse = [], Error = None\<rparr> # resultsOf verbose calls"
    and ok: "\<forall>c\<in>set calls. callFailure c = None"
    by blast+
  from eq have c: "combined = \<lparr>Commands = firstOccurrences (concat (map Commands (resultsOf verbose calls))),
               Duration = totalDuration (resultsOf verbose calls),
               RawResponse = [], Error = None\<rparr>" and i: "individual = resultsOf verbose calls"
    by (simp_all only: list.inject)
  show "Commands combined = firstOccurrences (concat (map Commands (resultsOf verbose calls)))"
    by (simp add: c)
  show "Duration combined = totalDuration (resultsOf verbose calls)"
    by (simp add: c)
  show "individual = resultsOf verbose calls" by (rule i)
  show "\<forall>c\<in>set calls. callFailure c = None" by (rule ok)
qed

lemma getCommands_commands:
  assumes "getCommands verbose calls = Inr results" and "r \<in> set results"
    and "cmd \<in> set (Commands r)"
  shows "\<exists>x. cmd = sanitizeToSingleCommand x"
proof -
  from assms(1) have ok: "\<forall>c\<in>set calls. callFailure c = None"
    using getCommands_Inr_iff by blast
  from assms(1) getCommands_success [OF ok, of verbose] assms(2)
  have "Commands r = firstOccurrences (concat (map Commands (resultsOf verbose calls)))
        \<or> r \<in> set (resultsOf verbose calls)"
    by auto
  then show ?thesis
  proof
    assume "Commands r = firstOccurrences (concat (map Commands (resultsOf verbose calls)))"
    with assms(3) obtain r' where "r' \<in> set (resultsOf verbose calls)" "cmd \<in> set (Commands r')"
      by (auto simp: set_firstOccurrences)
    then show ?thesis by (rule resultsOf_commands)
  next
    assume "r \<in> set (resultsOf verbose calls)"
    then show ?thesis using assms(3) by (rule resultsOf_commands)
  qed
qed

lemma getCommands_no_commands:
  assumes "\<forall>c\<in>set calls. callFailure c = None \<and> Commands (fst (makeAPICall verbose c)) = []"
  shows "getCommands verbose calls
         = Inr (\<lparr>Commands = [], Duration = totalDuration (resultsOf verbose calls),
                 RawResponse = [], Error = None\<rparr> # resultsOf verbose calls)"
proof -
  from assms have ok: "\<forall>c\<in>set calls. callFailure c = None" by simp
  from assms have "concat (map Commands (resultsOf verbose calls)) = []"
    by (simp add: resultsOf_def)
  then have "firstOccurrences (concat (map Commands (resultsOf verbose calls))) = []"
    by (simp add: firstOccurrences_def)
  with getCommands_success [OF ok, of verbose] show ?thesis by simp
qed

section \<open>Properties of durations and of the verbose report\<close>

lemma totalDuration_sum: "totalDuration rs = sum_list (map Duration rs)"
proof -
  have "fold (\<lambda>result total. total + Duration result) rs a = a + sum_list (map Duration rs)" for a
    by (induction rs arbitrary: a) (simp_all add: add.assoc)
  then show ?thesis by (simp add: totalDuration_def)
qed

lemma word_sum_of_sints: "sum_list ws = (word_of_int (sum_list (map sint ws)) :: 'a::len word)"
  by (induction ws) simp_all

lemma sint_in_range:
  "- (2 ^ 63) \<le> k \<Longrightarrow> k < 2 ^ 63 \<Longrightarrow> sint (word_of_int k :: 64 word) = k"
  by (simp add: sint_sbintrunc' signed_take_bit_int_eq_self)

lemma sint_sum_list:
  assumes "- (2 ^ 63) \<le> sum_list (map sint ws)" and "sum_list (map sint ws) < 2 ^ 63"
  shows "sint (sum_list ws :: 64 word) = sum_list (map sint ws)"
proof -
  have "sum_list ws = (word_of_int (sum_list (map sint ws)) :: 64 word)"
    by (rule word_sum_of_sints)
  then have "sint (sum_list ws) = sint (word_of_int (sum_list (map sint ws)) :: 64 word)"
    by simp
  also have "\<dots> = sum_list (map sint ws)"
    using assms by (rule sint_in_range)
  finally show ?thesis .
qed

lemma sdiv_range:
  assumes "- (2 ^ 63) \<le> (k::int)" and "k < 2 ^ 63" and "0 < l"
  shows "- (2 ^ 63) \<le> k sdiv l \<and> k sdiv l < 2 ^ 63"
proof (cases "0 \<le> k")
  case True
  with assms(3) have "k sdiv l = k div l"
    by (cases "k = 0") (simp_all add: signed_divide_int_def)
  moreover have "0 \<le> k div l" using True assms(3) by (simp add: pos_imp_zdiv_nonneg_iff)
  moreover have "k div l \<le> k div 1" using True assms(3) by (intro zdiv_mono2) simp_all
  then have "k div l \<le> k" by simp
  ultimately show ?thesis using assms(2) by simp
next
  case False
  then have neg: "k < 0" by simp
  with assms(3) have eq: "k sdiv l = - ((- k) div l)"
    by (simp add: signed_divide_int_def)
  have "0 \<le> (- k) div l" using neg assms(3) by (simp add: pos_imp_zdiv_nonneg_iff)
  moreover have "(- k) div l \<le> (- k) div 1" using neg assms(3) by (intro zdiv_mono2) simp_all
  then have "(- k) div l \<le> - k" by simp
  ultimately show ?thesis using assms(1) eq by simp
qed

lemma sint_of_nat_length:
  assumes "n < 2 ^ 63"
  shows "sint (of_nat n :: 64 word) = int n"
proof -
  have "(of_nat n :: 64 word) = word_of_int (int n)" by simp
  moreover have "sint (word_of_int (int n) :: 64 word) = int n"
  proof (rule sint_in_range)
    show "- (2 ^ 63) \<le> int n" by (rule order_trans [of _ 0]) simp_all
    from assms have "int n < int (2 ^ 63)" by (simp only: of_nat_less_iff)
    then show "int n < 2 ^ 63" by simp
  qed
  ultimately show ?thesis by simp
qed

lemma AverageTime_printed:
  "individual \<noteq> [] \<Longrightarrow>
   AverageTime a \<in> set (printVerboseOutput (combined # individual))
   \<longleftrightarrow> a = durationDiv (Duration combined) (of_nat (length individual))"
  by (auto simp: printVerboseOutput_def Let_def)

lemma TotalTime_printed:
  "individual \<noteq> [] \<Longrightarrow>
   TotalTime (Duration combined) \<in> set (printVerboseOutput (combined # individual))"
  by (simp add: printVerboseOutput_def)

section \<open>The task description (C1)\<close>

text \<open>
  C1: the task description should be all the words that follow the leading
  flags. On the arguments \<open>ai find files\<close> the flag loop does not stop at
  \<open>find\<close>: it moves \<open>taskStart\<close> on to every later word, and the task handed to the
  prompt builder is the last word alone, not \<open>find files\<close>. On \<open>ai find -v\<close> the
  trailing flag moves \<open>taskStart\<close> past the end, and the run is a usage error
  although the word \<open>find\<close> is there.
\<close>

theorem parseArgs_keeps_last_word_only:
  "parseArgs [''ai'', ''find'', ''files''] ''tok'' = Inr (False, 3, ''files'')
   \<and> Join (drop 1 [''ai'', ''find'', ''files'']) '' '' = ''find files''
   \<and> parseArgs [''ai'', ''find'', ''-v''] ''tok''
       = Inl ''Usage: ai [-v] [-n <number>] <task description>''"
  by code_simp

section \<open>The order of the aggregated commands (C2)\<close>

text \<open>
  C2, as stated, fails: the same two per-call results, received in the two possible
  orders, give the aggregated lists \<open>ls\<close>, \<open>pwd\<close> and \<open>pwd\<close>, \<open>ls\<close>. The calls
  carry no index; the aggregation scans the results in the order the channel
  delivered them.
\<close>

theorem aggregated_order_follows_completion_order:
  \<open>getCommands False
     [\<lparr>Reply = Inr \<lparr>StatusCode = 200, Body = Some ''{"output_text":"ls"}'',
                     Decoded = Inr (emptyResp\<lparr>OutputText := ''ls''\<rparr>)\<rparr>, Elapsed = 1\<rparr>,
      \<lparr>Reply = Inr \<lparr>StatusCode = 200, Body = Some ''{"output_text":"pwd"}'',
                     Decoded = Inr (emptyResp\<lparr>OutputText := ''pwd''\<rparr>)\<rparr>, Elapsed = 2\<rparr>]
   = Inr [\<lparr>Commands = [''ls'', ''pwd''], Duration = 3, RawResponse = [], Error = None\<rparr>,
          \<lparr>Commands = [''ls''], Duration = 1, RawResponse = [], Error = None\<rparr>,
          \<lparr>Commands = [''pwd''], Duration = 2, RawResponse = [], Error = None\<rparr>]
   \<and> getCommands False
     [\<lparr>Reply = Inr \<lparr>StatusCode = 200, Body = Some ''{"output_text":"pwd"}'',
                     Decoded = Inr (emptyResp\<lparr>OutputText := ''pwd''\<rparr>)\<rparr>, Elapsed = 2\<rparr>,
      \<lparr>Reply = Inr \<lparr>StatusCode = 200, Body = Some ''{"output_text":"ls"}'',
                     Decoded = Inr (emptyResp\<lparr>OutputText := ''ls''\<rparr>)\<rparr>, Elapsed = 1\<rparr>]
   = Inr [\<lparr>Commands = [''pwd'', ''ls''], Duration = 3, RawResponse = [], Error = None\<rparr>,
          \<lparr>Commands = [''pwd''], Duration = 2, RawResponse = [], Error = None\<rparr>,
          \<lparr>Commands = [''ls''], Duration = 1, RawResponse = [], Error = None\<rparr>]
   \<and> [''ls'', ''pwd''] \<noteq> [''pwd'', ''ls'']\<close>
proof -
  have san: "sanitizeToSingleCommand ''ls'' = ''ls''" "sanitizeToSingleCommand ''pwd'' = ''pwd''"
    by code_simp+
  show ?thesis
    by (simp add: getCommands_def makeAPICall_def responseCandidates_def extractCandidates_def
        emptyResp_def sanitizeAll_def san totalDuration_def)
qed

text \<open>
  C2, amended: on full success the aggregated command list holds the first
  occurrence of each distinct command, scanning the per-call results in the order
  they were received and each call's commands in candidate order. If the same
  calls are received in another order, the operation succeeds again with the same
  per-call results and the same aggregated commands, each once, up to their order.
\<close>

theorem aggregated_commands_same_up_to_order:
  assumes "mset calls' = mset calls"
    and "getCommands verbose calls = Inr (agg # rs)"
  shows "\<exists>agg' rs'.
           getCommands verbose calls' = Inr (agg' # rs')
           \<and> rs = resultsOf verbose calls \<and> rs' = resultsOf verbose calls'
           \<and> Commands agg = firstOccurrences (concat (map Commands rs))
           \<and> Commands agg' = firstOccurrences (concat (map Commands rs'))
           \<and> mset rs' = mset rs
           \<and> mset (Commands agg') = mset (Commands agg)"
proof -
  from assms(2) have ok: "\<forall>c\<in>set calls. callFailure c = None"
    and agg: "Commands agg = firstOccurrences (concat (map Commands (resultsOf verbose calls)))"
    and rs: "rs = resultsOf verbose calls"
    by (simp_all add: getCommands_Inr_combined)
  from assms(1) have "set calls' = set calls" by (rule mset_eq_setD)
  with ok have ok': "\<forall>c\<in>set calls'. callFailure c = None" by simp
  let ?rs' = "resultsOf verbose calls'"
  let ?agg' = "\<lparr>Commands = firstOccurrences (concat (map Commands ?rs')),
                 Duration = totalDuration ?rs', RawResponse = [], Error = None\<rparr>"
  have run': "getCommands verbose calls' = Inr (?agg' # ?rs')"
    by (rule getCommands_success [OF ok'])
  have "mset (map (\<lambda>c. fst (makeAPICall verbose c)) calls')
        = mset (map (\<lambda>c. fst (makeAPICall verbose c)) calls)"
    using assms(1) by (metis mset_map)
  then have m: "mset ?rs' = mset rs" by (simp add: resultsOf_def rs)
  then have "set ?rs' = set rs" by (rule mset_eq_setD)
  then have "set (concat (map Commands ?rs')) = set (concat (map Commands rs))"
    by simp
  then have "mset (firstOccurrences (concat (map Commands ?rs')))
             = mset (firstOccurrences (concat (map Commands rs)))"
    by (simp add: set_eq_iff_mset_eq_distinct [symmetric] distinct_firstOccurrences
        set_firstOccurrences)
  then have c: "mset (Commands ?agg') = mset (Commands agg)" by (simp add: agg rs)
  have a': "Commands ?agg' = firstOccurrences (concat (map Commands ?rs'))" by simp
  from run' rs agg a' m c show ?thesis unfolding rs by blast
qed

text \<open>
  The two calls of the counterexample in both orders: both runs succeed, and the
  second aggregated list is a permutation of \<open>ls\<close>, \<open>pwd\<close>.
\<close>

theorem aggregated_commands_same_up_to_order_witness:
  \<open>mset [\<lparr>Reply = Inr \<lparr>StatusCode = 200, Body = Some ''{"output_text":"pwd"}'',
                     Decoded = Inr (emptyResp\<lparr>OutputText := ''pwd''\<rparr>)\<rparr>, Elapsed = 2\<rparr>,
         \<lparr>Reply = Inr \<lparr>StatusCode = 200, Body = Some ''{"output_text":"ls"}'',
                     Decoded = Inr (emptyResp\<lparr>OutputText := ''ls''\<rparr>)\<rparr>, Elapsed = 1\<rparr>]
   = mset [\<lparr>Reply = Inr \<lparr>StatusCode = 200, Body = Some ''{"output_text":"ls"}'',
                     Decoded = Inr (emptyResp\<lparr>OutputText := ''ls''\<rparr>)\<rparr>, Elapsed = 1\<rparr>,
           \<lparr>Reply = Inr \<lparr>StatusCode = 200, Body = Some ''{"output_text":"pwd"}'',
                     Decoded = Inr (emptyResp\<lparr>OutputText := ''pwd''\<rparr>)\<rparr>, Elapsed = 2\<rparr>]
   \<and> getCommands False
     [\<lparr>Reply = Inr \<lparr>StatusCode = 200, Body = Some ''{"output_text":"ls"}'',
                     Decoded = Inr (emptyResp\<lparr>OutputText := ''ls''\<rparr>)\<rparr>, Elapsed = 1\<rparr>,
      \<lparr>Reply = Inr \<lparr>StatusCode = 200, Body = Some ''{"output_text":"pwd"}'',
                     Decoded = Inr (emptyResp\<lparr>OutputText := ''pwd''\<rparr>)\<rparr>, Elapsed = 2\<rparr>]
   = Inr [\<lparr>Commands = [''ls'', ''pwd''], Duration = 3, RawResponse = [], Error = None\<rparr>,
          \<lparr>Commands = [''ls''], Duration = 1, RawResponse = [], Error = None\<rparr>,
          \<lparr>Commands = [''pwd''], Duration = 2, RawResponse = [], Error = None\<rparr>]
   \<and> (\<exists>agg' rs'.
         getCommands False
           [\<lparr>Reply = Inr \<lparr>StatusCode = 200, Body = Some ''{"output_text":"pwd"}'',
                     Decoded = Inr (emptyResp\<lparr>OutputText := ''pwd''\<rparr>)\<rparr>, Elapsed = 2\<rparr>,
            \<lparr>Reply = Inr \<lparr>StatusCode = 200, Body = Some ''{"output_text":"ls"}'',
                     Decoded = Inr (emptyResp\<lparr>OutputText := ''ls''\<rparr>)\<rparr>, Elapsed = 1\<rparr>]
         = Inr (agg' # rs')
         \<and> mset rs' = mset [\<lparr>Commands = [''ls''], Duration = 1, RawResponse = [], Error = None\<rparr>,
                             \<lparr>Commands = [''pwd''], Duration = 2, RawResponse = [], Error = None\<rparr>]
         \<and> mset (Commands agg') = mset [''ls'', ''pwd''])\<close>
proof -
  let ?ca = \<open>\<lparr>Reply = Inr \<lparr>StatusCode = 200, Body = Some ''{"output_text":"ls"}'',
                     Decoded = Inr (emptyResp\<lparr>OutputText := ''ls''\<rparr>)\<rparr>, Elapsed = 1\<rparr>\<close>
  let ?cb = \<open>\<lparr>Reply = Inr \<lparr>StatusCode = 200, Body = Some ''{"output_text":"pwd"}'',
                     Decoded = Inr (emptyResp\<lparr>OutputText := ''pwd''\<rparr>)\<rparr>, Elapsed = 2\<rparr>\<close>
  let ?agg = "\<lparr>Commands = [''ls'', ''pwd''], Duration = 3 :: duration, RawResponse = [],
               Error = None :: goError option\<rparr>"
  let ?ra = "\<lparr>Commands = [''ls''], Duration = 1 :: duration, RawResponse = [],
              Error = None :: goError option\<rparr>"
  let ?rb = "\<lparr>Commands = [''pwd''], Duration = 2 :: duration, RawResponse = [],
              Error = None :: goError option\<rparr>"
  have san: "sanitizeToSingleCommand ''ls'' = ''ls''" "sanitizeToSingleCommand ''pwd'' = ''pwd''"
    by code_simp+
  have perm: "mset [?cb, ?ca] = mset [?ca, ?cb]" by simp
  have run: "getCommands False [?ca, ?cb] = Inr (?agg # [?ra, ?rb])"
    by (simp add: getCommands_def makeAPICall_def responseCandidates_def extractCandidates_def
        emptyResp_def sanitizeAll_def san totalDuration_def)
  from aggregated_commands_same_up_to_order [OF perm run]
  obtain agg' rs' where "getCommands False [?cb, ?ca] = Inr (agg' # rs')"
    "mset rs' = mset [?ra, ?rb]" "mset (Commands agg') = mset (Commands ?agg)"
    by blast
  then have "\<exists>agg' rs'. getCommands False [?cb, ?ca] = Inr (agg' # rs')
       \<and> mset rs' = mset [?ra, ?rb] \<and> mset (Commands agg') = mset [''ls'', ''pwd'']"
    by auto
  with perm run show ?thesis by simp
qed

section \<open>The first failure (C3)\<close>

text \<open>
  C3, as stated, fails: a response with status 300, which is not a 2xx status and
  which the HTTP client does not follow, passes the test \<open>StatusCode >= 400\<close>;
  its body decodes, and the run succeeds with the command \<open>ls\<close>.
\<close>

theorem redirect_status_is_not_a_failure:
  \<open>specFailure \<lparr>Reply = Inr \<lparr>StatusCode = 300, Body = Some ''{"output_text":"ls"}'',
                               Decoded = Inr (emptyResp\<lparr>OutputText := ''ls''\<rparr>)\<rparr>,
                 Elapsed = 1\<rparr>
   \<and> getCommands False
       [\<lparr>Reply = Inr \<lparr>StatusCode = 300, Body = Some ''{"output_text":"ls"}'',
                       Decoded = Inr (emptyResp\<lparr>OutputText := ''ls''\<rparr>)\<rparr>,
         Elapsed = 1\<rparr>]
     = Inr [\<lparr>Commands = [''ls''], Duration = 1, RawResponse = [], Error = None\<rparr>,
            \<lparr>Commands = [''ls''], Duration = 1, RawResponse = [], Error = None\<rparr>]\<close>
proof -
  have san: "sanitizeToSingleCommand ''ls'' = ''ls''"
    by code_simp
  show ?thesis
    by (simp add: specFailure_def getCommands_def makeAPICall_def responseCandidates_def
        extractCandidates_def emptyResp_def sanitizeAll_def san totalDuration_def)
qed

text \<open>
  C3, amended: a call fails when the transport reports an error, when the status
  code is 400 or more, or when the body does not decode. If at least one of the
  calls fails, \<open>getCommands\<close> returns exactly one error, the one of the first
  failing call in the order of completion, and no result list.
\<close>

theorem first_failure_is_returned:
  assumes "\<exists>c\<in>set calls. callFailure c \<noteq> None"
  shows "\<exists>pre c post e.
           calls = pre @ c # post
           \<and> (\<forall>p\<in>set pre. callFailure p = None)
           \<and> callFailure c = Some e
           \<and> snd (makeAPICall verbose c) = Some e
           \<and> getCommands verbose calls = Inl e"
proof -
  from assms obtain pre c post where split: "calls = pre @ c # post"
    and c: "callFailure c \<noteq> None" and pre: "\<forall>p\<in>set pre. \<not> callFailure p \<noteq> None"
    using split_list_first_prop [of calls "\<lambda>c. callFailure c \<noteq> None"] by blast
  from c obtain e where e: "callFailure c = Some e" by blast
  from pre have pre': "\<forall>p\<in>set pre. callFailure p = None" by simp
  have "getCommands verbose calls = Inl e"
    using split pre' e by (rule getCommands_failure)
  moreover have "snd (makeAPICall verbose c) = Some e"
    by (simp add: makeAPICall_error e)
  ultimately show ?thesis using split pre' e by blast
qed

text \<open>
  Three calls that all fail (status 500, a transport timeout, an undecodable
  body): the run reports the failure of the first one only.
\<close>

theorem first_failure_is_returned_witness:
  \<open>callFailure \<lparr>Reply = Inr \<lparr>StatusCode = 500, Body = Some ''oops'', Decoded = Inl ''invalid character''\<rparr>,
                  Elapsed = 3\<rparr> = Some (StatusError 500 ''oops'')
   \<and> callFailure \<lparr>Reply = Inl ''timeout'', Elapsed = 30000000000\<rparr> = Some (DoError ''timeout'')
   \<and> callFailure \<lparr>Reply = Inr \<lparr>StatusCode = 200, Body = Some ''<html>'', Decoded = Inl ''invalid character''\<rparr>,
                    Elapsed = 5\<rparr> = Some (JsonError ''invalid character'')
   \<and> getCommands False
       [\<lparr>Reply = Inr \<lparr>StatusCode = 500, Body = Some ''oops'', Decoded = Inl ''invalid character''\<rparr>,
         Elapsed = 3\<rparr>,
        \<lparr>Reply = Inl ''timeout'', Elapsed = 30000000000\<rparr>,
        \<lparr>Reply = Inr \<lparr>StatusCode = 200, Body = Some ''<html>'', Decoded = Inl ''invalid character''\<rparr>,
         Elapsed = 5\<rparr>]
     = Inl (StatusError 500 ''oops'')\<close>
proof -
  let ?c1 = "\<lparr>Reply = Inr \<lparr>StatusCode = 500, Body = Some ''oops'', Decoded = Inl ''invalid character''\<rparr>,
              Elapsed = 3 :: duration\<rparr>"
  let ?c2 = "\<lparr>Reply = Inl ''timeout'', Elapsed = 30000000000 :: duration\<rparr>"
  let ?c3 = "\<lparr>Reply = Inr \<lparr>StatusCode = 200, Body = Some ''<html>'', Decoded = Inl ''invalid character''\<rparr>,
              Elapsed = 5 :: duration\<rparr>"
  have f: "callFailure ?c1 = Some (StatusError 500 ''oops'')"
    "callFailure ?c2 = Some (DoError ''timeout'')"
    "callFailure ?c3 = Some (JsonError ''invalid character'')"
    by (simp_all add: callFailure_def bodyText_def)
  then have h: "\<exists>c\<in>set [?c1, ?c2, ?c3]. callFailure c \<noteq> None" by simp
  from first_failure_is_returned [OF h, of False]
  obtain pre c post e where split: "[?c1, ?c2, ?c3] = pre @ c # post"
    and pre: "\<forall>p\<in>set pre. callFailure p = None" and e: "callFailure c = Some e"
    and run: "getCommands False [?c1, ?c2, ?c3] = Inl e"
    by blast
  have "pre = []"
  proof (cases pre)
    case Nil
    then show ?thesis .
  next
    case (Cons p ps)
    with split have "p = ?c1" by simp
    with pre Cons f(1) show ?thesis by simp
  qed
  with split have "c = ?c1" by simp
  with e f(1) have "e = StatusError 500 ''oops''" by simp
  with run f show ?thesis by simp
qed

section \<open>No duplicate commands (C4)\<close>

text \<open>
  C4: whenever \<open>getCommands\<close> succeeds, whatever the per-call command lists hold,
  the command list of the aggregated result (the first element returned) has no
  two equal strings.
\<close>

theorem aggregated_commands_distinct:
  "getCommands verbose calls = Inr (combined # individual) \<Longrightarrow> distinct (Commands combined)"
  by (simp add: getCommands_Inr_combined(1) distinct_firstOccurrences)

text \<open>
  Two successful calls, the first with \<open>ls\<close> twice and \<open>pwd\<close>, the second with
  \<open>pwd\<close> again: the aggregated list is \<open>ls\<close>, \<open>pwd\<close>.
\<close>

theorem aggregated_commands_distinct_witness:
  \<open>getCommands False
     [\<lparr>Reply = Inr \<lparr>StatusCode = 200,
                     Body = Some ''{"output":[{"text":"ls"},{"text":"pwd"},{"text":"ls"}]}'',
                     Decoded = Inr (emptyResp\<lparr>Output :=
                       [\<lparr>item_Type = [], item_Text = ''ls'', item_Content = [], item_Role = []\<rparr>,
                        \<lparr>item_Type = [], item_Text = ''pwd'', item_Content = [], item_Role = []\<rparr>,
                        \<lparr>item_Type = [], item_Text = ''ls'', item_Content = [], item_Role = []\<rparr>]\<rparr>)\<rparr>,
       Elapsed = 1\<rparr>,
      \<lparr>Reply = Inr \<lparr>StatusCode = 200, Body = Some ''{"output_text":"pwd"}'',
                     Decoded = Inr (emptyResp\<lparr>OutputText := ''pwd''\<rparr>)\<rparr>, Elapsed = 2\<rparr>]
   = Inr [\<lparr>Commands = [''ls'', ''pwd''], Duration = 3, RawResponse = [], Error = None\<rparr>,
          \<lparr>Commands = [''ls'', ''pwd'', ''ls''], Duration = 1, RawResponse = [], Error = None\<rparr>,
          \<lparr>Commands = [''pwd''], Duration = 2, RawResponse = [], Error = None\<rparr>]
   \<and> distinct [''ls'', ''pwd'']\<close>
proof -
  have t: "TrimSpace ''ls'' = ''ls''" "TrimSpace ''pwd'' = ''pwd''"
    by code_simp+
  have san: "sanitizeToSingleCommand ''ls'' = ''ls''" "sanitizeToSingleCommand ''pwd'' = ''pwd''"
    by code_simp+
  have run: \<open>getCommands False
     [\<lparr>Reply = Inr \<lparr>StatusCode = 200,
                     Body = Some ''{"output":[{"text":"ls"},{"text":"pwd"},{"text":"ls"}]}'',
                     Decoded = Inr (emptyResp\<lparr>Output :=
                       [\<lparr>item_Type = [], item_Text = ''ls'', item_Content = [], item_Role = []\<rparr>,
                        \<lparr>item_Type = [], item_Text = ''pwd'', item_Content = [], item_Role = []\<rparr>,
                        \<lparr>item_Type = [], item_Text = ''ls'', item_Content = [], item_Role = []\<rparr>]\<rparr>)\<rparr>,
       Elapsed = 1\<rparr>,
      \<lparr>Reply = Inr \<lparr>StatusCode = 200, Body = Some ''{"output_text":"pwd"}'',
                     Decoded = Inr (emptyResp\<lparr>OutputText := ''pwd''\<rparr>)\<rparr>, Elapsed = 2\<rparr>]
   = Inr [\<lparr>Commands = [''ls'', ''pwd''], Duration = 3, RawResponse = [], Error = None\<rparr>,
          \<lparr>Commands = [''ls'', ''pwd'', ''ls''], Duration = 1, RawResponse = [], Error = None\<rparr>,
          \<lparr>Commands = [''pwd''], Duration = 2, RawResponse = [], Error = None\<rparr>]\<close>
    by (simp add: getCommands_def makeAPICall_def responseCandidates_def extractCandidates_def
        outputCandidates_def emptyResp_def sanitizeAll_def t san totalDuration_def)
  from aggregated_commands_distinct [OF run] run show ?thesis by simp
qed

section \<open>The precedence of the extraction strategies (C5)\<close>

text \<open>
  C5: the first strategy that yields a non-blank candidate should win. For a
  response with no candidates, an output text of one space and an output item
  \<open>ls\<close>, the candidates collection yields nothing and the output items would
  yield \<open>ls\<close>; but the output text is tested for emptiness only, not for
  blankness as the part texts and the item texts are, so the blank text is the
  one candidate, the output items are never read, and no command is left after
  sanitizing.
\<close>

theorem blank_output_text_hides_output_items:
  \<open>responseCandidates
     (emptyResp\<lparr>Output := [\<lparr>item_Type = [], item_Text = ''ls'', item_Content = [], item_Role = []\<rparr>],
                OutputText := '' ''\<rparr>) = ['' '']
   \<and> TrimSpace '' '' = []
   \<and> partTexts
     (emptyResp\<lparr>Output := [\<lparr>item_Type = [], item_Text = ''ls'', item_Content = [], item_Role = []\<rparr>],
                OutputText := '' ''\<rparr>) = []
   \<and> outputCandidates [\<lparr>item_Type = [], item_Text = ''ls'', item_Content = [], item_Role = []\<rparr>] []
       = [''ls'']
   \<and> sanitizeAll (responseCandidates
     (emptyResp\<lparr>Output := [\<lparr>item_Type = [], item_Text = ''ls'', item_Content = [], item_Role = []\<rparr>],
                OutputText := '' ''\<rparr>)) = []\<close>
proof -
  have t: "TrimSpace '' '' = []" "TrimSpace ''ls'' = ''ls''" by code_simp+
  have san: "sanitizeToSingleCommand '' '' = []" by code_simp
  have c: \<open>responseCandidates
     (emptyResp\<lparr>Output := [\<lparr>item_Type = [], item_Text = ''ls'', item_Content = [], item_Role = []\<rparr>],
                OutputText := '' ''\<rparr>) = ['' '']\<close>
    by (simp add: responseCandidates_def extractCandidates_def emptyResp_def)
  have p: \<open>partTexts
     (emptyResp\<lparr>Output := [\<lparr>item_Type = [], item_Text = ''ls'', item_Content = [], item_Role = []\<rparr>],
                OutputText := '' ''\<rparr>) = []\<close>
    by (simp add: partTexts_def emptyResp_def)
  have oc: "outputCandidates [\<lparr>item_Type = [], item_Text = ''ls'', item_Content = [], item_Role = []\<rparr>] []
       = [''ls'']"
    by (simp add: outputCandidates_def t)
  have s: "sanitizeAll ['' ''] = []" by (simp add: sanitizeAll_def san)
  from c t(1) p oc s show ?thesis by simp
qed

section \<open>Idempotence of the sanitizer (C6)\<close>

text \<open>
  C6: on an already-clean single-line command the sanitizer changes nothing, so
  applying it a second time to its own output is a no-op.
\<close>

theorem sanitize_idempotent_on_clean:
  "cleanCommand x \<Longrightarrow>
   sanitizeToSingleCommand (sanitizeToSingleCommand x) = sanitizeToSingleCommand x
   \<and> sanitizeToSingleCommand x = x"
  by (simp add: sanitize_clean)

text \<open>
  The command \<open>ls -la\<close> is clean, and sanitizing it once or twice gives \<open>ls -la\<close>.
\<close>

theorem sanitize_idempotent_on_clean_witness:
  "cleanCommand ''ls -la''
   \<and> sanitizeToSingleCommand (sanitizeToSingleCommand ''ls -la'') = sanitizeToSingleCommand ''ls -la''
   \<and> sanitizeToSingleCommand ''ls -la'' = ''ls -la''"
proof -
  have h: "cleanCommand ''ls -la''" by code_simp
  from sanitize_idempotent_on_clean [OF h] h show ?thesis by simp
qed

section \<open>The total and the average duration (C7)\<close>

text \<open>
  C7: on full success the duration of the aggregated result is the sum of the
  elapsed durations of the calls, and the average printed by the verbose report is
  that sum divided by the number of calls with Go's integer division (\<open>sdiv\<close>:
  the quotient rounded towards zero). Durations are \<open>int64\<close> values: the sum is
  taken to lie in the \<open>int64\<close> range (about 292 years of nanoseconds) and the
  number of calls in the range of a Go \<open>int\<close>.
\<close>

theorem aggregated_duration_is_sum:
  assumes "getCommands verbose calls = Inr (combined # individual)"
    and "calls \<noteq> []" and "length calls < 2 ^ 63"
    and "- (2 ^ 63) \<le> (\<Sum>c\<leftarrow>calls. sint (Elapsed c))"
    and "(\<Sum>c\<leftarrow>calls. sint (Elapsed c)) < 2 ^ 63"
  shows "sint (Duration combined) = (\<Sum>c\<leftarrow>calls. sint (Elapsed c))
         \<and> TotalTime (Duration combined) \<in> set (printVerboseOutput (combined # individual))
         \<and> (\<exists>a. AverageTime a \<in> set (printVerboseOutput (combined # individual)))
         \<and> (\<forall>a. AverageTime a \<in> set (printVerboseOutput (combined # individual))
                \<longrightarrow> sint a = (\<Sum>c\<leftarrow>calls. sint (Elapsed c)) sdiv int (length calls))"
proof -
  let ?S = "\<Sum>c\<leftarrow>calls. sint (Elapsed c)"
  from assms(1) have d: "Duration combined = totalDuration (resultsOf verbose calls)"
    and i: "individual = resultsOf verbose calls"
    by (simp_all add: getCommands_Inr_combined)
  have len: "length individual = length calls" by (simp add: i length_resultsOf)
  with assms(2) have ne: "individual \<noteq> []" by auto
  have "Duration combined = sum_list (map Elapsed calls)"
    by (simp add: d totalDuration_sum resultsOf_Durations)
  moreover have m: "map sint (map Elapsed calls) = map (\<lambda>c. sint (Elapsed c)) calls"
    by simp
  moreover have "sint (sum_list (map Elapsed calls) :: 64 word)
                 = sum_list (map sint (map Elapsed calls))"
    using assms(4,5) unfolding m [symmetric] by (rule sint_sum_list)
  ultimately have total: "sint (Duration combined) = ?S"
    by (simp only:)
  have n: "sint (of_nat (length individual) :: 64 word) = int (length calls)"
    using assms(3) by (simp add: len sint_of_nat_length)
  have pos: "0 < int (length calls)" using assms(2) by simp
  have q: "- (2 ^ 63) \<le> ?S sdiv int (length calls) \<and> ?S sdiv int (length calls) < 2 ^ 63"
    using assms(4,5) pos by (rule sdiv_range)
  have avg: "sint (durationDiv (Duration combined) (of_nat (length individual)))
             = ?S sdiv int (length calls)"
    unfolding durationDiv_def total n using q by (simp add: sint_in_range)
  have "TotalTime (Duration combined) \<in> set (printVerboseOutput (combined # individual))"
    using ne by (rule TotalTime_printed)
  moreover have "\<exists>a. AverageTime a \<in> set (printVerboseOutput (combined # individual))"
    using AverageTime_printed [OF ne] by blast
  moreover have "\<forall>a. AverageTime a \<in> set (printVerboseOutput (combined # individual))
                \<longrightarrow> sint a = ?S sdiv int (length calls)"
    using AverageTime_printed [OF ne] avg by simp
  ultimately show ?thesis using total by blast
qed

text \<open>
  Two calls that took 3 and 4 nanoseconds, in verbose mode: the total is 7 and the
  average printed is 3.
\<close>

theorem aggregated_duration_is_sum_witness:
  \<open>getCommands True
     [\<lparr>Reply = Inr \<lparr>StatusCode = 200, Body = Some ''{"output_text":"ls"}'',
                     Decoded = Inr (emptyResp\<lparr>OutputText := ''ls''\<rparr>)\<rparr>, Elapsed = 3\<rparr>,
      \<lparr>Reply = Inr \<lparr>StatusCode = 200, Body = Some ''{"output_text":"pwd"}'',
                     Decoded = Inr (emptyResp\<lparr>OutputText := ''pwd''\<rparr>)\<rparr>, Elapsed = 4\<rparr>]
   = Inr [\<lparr>Commands = [''ls'', ''pwd''], Duration = 7, RawResponse = [], Error = None\<rparr>,
          \<lparr>Commands = [''ls''], Duration = 3, RawResponse = ''{"output_text":"ls"}'', Error = None\<rparr>,
          \<lparr>Commands = [''pwd''], Duration = 4, RawResponse = ''{"output_text":"pwd"}'', Error = None\<rparr>]
   \<and> sint (7 :: duration) = 3 + 4
   \<and> TotalTime 7 \<in> set (printVerboseOutput
       [\<lparr>Commands = [''ls'', ''pwd''], Duration = 7, RawResponse = [], Error = None\<rparr>,
        \<lparr>Commands = [''ls''], Duration = 3, RawResponse = ''{"output_text":"ls"}'', Error = None\<rparr>,
        \<lparr>Commands = [''pwd''], Duration = 4, RawResponse = ''{"output_text":"pwd"}'', Error = None\<rparr>])
   \<and> AverageTime 3 \<in> set (printVerboseOutput
       [\<lparr>Commands = [''ls'', ''pwd''], Duration = 7, RawResponse = [], Error = None\<rparr>,
        \<lparr>Commands = [''ls''], Duration = 3, RawResponse = ''{"output_text":"ls"}'', Error = None\<rparr>,
        \<lparr>Commands = [''pwd''], Duration = 4, RawResponse = ''{"output_text":"pwd"}'', Error = None\<rparr>])
   \<and> (3 + 4) sdiv int (length [1 :: nat, 2]) = (3 :: int)\<close>
proof -
  let ?ca = \<open>\<lparr>Reply = Inr \<lparr>StatusCode = 200, Body = Some ''{"output_text":"ls"}'',
                     Decoded = Inr (emptyResp\<lparr>OutputText := ''ls''\<rparr>)\<rparr>, Elapsed = 3\<rparr>\<close>
  let ?cb = \<open>\<lparr>Reply = Inr \<lparr>StatusCode = 200, Body = Some ''{"output_text":"pwd"}'',
                     Decoded = Inr (emptyResp\<lparr>OutputText := ''pwd''\<rparr>)\<rparr>, Elapsed = 4\<rparr>\<close>
  let ?agg = "\<lparr>Commands = [''ls'', ''pwd''], Duration = 7 :: duration, RawResponse = [],
               Error = None :: goError option\<rparr>"
  let ?ra = \<open>\<lparr>Commands = [''ls''], Duration = 3 :: duration, RawResponse = ''{"output_text":"ls"}'',
              Error = None :: goError option\<rparr>\<close>
  let ?rb = \<open>\<lparr>Commands = [''pwd''], Duration = 4 :: duration, RawResponse = ''{"output_text":"pwd"}'',
              Error = None :: goError option\<rparr>\<close>
  have san: "sanitizeToSingleCommand ''ls'' = ''ls''" "sanitizeToSingleCommand ''pwd'' = ''pwd''"
    by code_simp+
  have run: "getCommands True [?ca, ?cb] = Inr (?agg # [?ra, ?rb])"
    by (simp add: getCommands_def makeAPICall_def responseCandidates_def extractCandidates_def
        emptyResp_def sanitizeAll_def san totalDuration_def bodyText_def)
  have ne: "[?ca, ?cb] \<noteq> []" by simp
  have len: "length [?ca, ?cb] < 2 ^ 63" by simp
  have lo: "- (2 ^ 63) \<le> (\<Sum>c\<leftarrow>[?ca, ?cb]. sint (Elapsed c))" by simp
  have hi: "(\<Sum>c\<leftarrow>[?ca, ?cb]. sint (Elapsed c)) < 2 ^ 63" by simp
  have q: "(3 + 4) sdiv int (length [1 :: nat, 2]) = (3 :: int)"
    by (simp add: signed_divide_int_def)
  from aggregated_duration_is_sum [OF run ne len lo hi]
  have total: "sint (Duration ?agg) = (\<Sum>c\<leftarrow>[?ca, ?cb]. sint (Elapsed c))"
    and tt: "TotalTime (Duration ?agg) \<in> set (printVerboseOutput [?agg, ?ra, ?rb])"
    and ex: "\<exists>a. AverageTime a \<in> set (printVerboseOutput [?agg, ?ra, ?rb])"
    and all: "\<forall>a. AverageTime a \<in> set (printVerboseOutput [?agg, ?ra, ?rb])
                \<longrightarrow> sint a = (\<Sum>c\<leftarrow>[?ca, ?cb]. sint (Elapsed c)) sdiv int (length [?ca, ?cb])"
    by blast+
  from ex obtain a where a: "AverageTime a \<in> set (printVerboseOutput [?agg, ?ra, ?rb])" by blast
  with all have "sint a = (3 + 4) sdiv 2" by simp
  then have "sint a = 3" by (simp add: signed_divide_int_def)
  then have "word_of_int (sint a) = (word_of_int 3 :: duration)" by simp
  then have "a = 3" by simp
  with a have av: "AverageTime 3 \<in> set (printVerboseOutput [?agg, ?ra, ?rb])" by simp
  from total have s: "sint (7 :: duration) = 3 + 4" by simp
  from tt have tt': "TotalTime 7 \<in> set (printVerboseOutput [?agg, ?ra, ?rb])" by simp
  from run s tt' av q show ?thesis by (simp only: simp_thms)
qed

section \<open>No commands generated (C8)\<close>

text \<open>
  C8: if the arguments parse, every one of the \<open>numCommands\<close> calls succeeds and no
  call yields a non-empty sanitized command, then \<open>getCommands\<close> returns an
  aggregated result with an empty command list, and the program prints
  \<open>No commands generated\<close> on standard error and exits with code 1 without
  printing a menu or executing a command.
\<close>

theorem no_commands_generated:
  assumes "parseArgs (Args w) (Token w) = Inr (verbose, numCommands, task)"
    and "calls = map (Net w (Token w) (buildPrompt task (Context w))) [0..<nat numCommands]"
    and "\<forall>c\<in>set calls. callFailure c = None \<and> Commands (fst (makeAPICall verbose c)) = []"
  shows "(\<exists>combined individual.
            getCommands verbose calls = Inr (combined # individual) \<and> Commands combined = [])
         \<and> main w = \<lparr>exitCode = 1, stderr = [Message ''No commands generated''], stdout = [],
                      requests = length calls, executed = None\<rparr>"
proof -
  let ?combined = "\<lparr>Commands = [], Duration = totalDuration (resultsOf verbose calls),
                     RawResponse = [], Error = None\<rparr>"
  have run: "getCommands verbose calls = Inr (?combined # resultsOf verbose calls)"
    using assms(3) by (rule getCommands_no_commands)
  have "main w = \<lparr>exitCode = 1, stderr = [Message ''No commands generated''], stdout = [],
                    requests = length calls, executed = None\<rparr>"
    using run unfolding assms(2) by (simp add: main_def assms(1) Let_def)
  moreover have "Commands ?combined = []" by simp
  ultimately show ?thesis using run by blast
qed

text \<open>
  The run \<open>ai -n 2 noop\<close> in a world where both calls answer with a
  whitespace-only output text.
\<close>

theorem no_commands_generated_witness:
  \<open>main \<lparr>Args = [''ai'', ''-n'', ''2'', ''noop''], Token = ''tok'', Context = [(''shell'', ''sh'')],
          Net = (\<lambda>token prompt k.
                   \<lparr>Reply = Inr \<lparr>StatusCode = 200, Body = Some ''{"output_text":" "}'',
                                   Decoded = Inr (emptyResp\<lparr>OutputText := '' ''\<rparr>)\<rparr>,
                     Elapsed = 5\<rparr>),
          Stdin = ''1'', Run = (\<lambda>command. Finished)\<rparr>
   = \<lparr>exitCode = 1, stderr = [Message ''No commands generated''], stdout = [],
      requests = 2, executed = None\<rparr>\<close>
proof -
  let ?c = \<open>\<lparr>Reply = Inr \<lparr>StatusCode = 200, Body = Some ''{"output_text":" "}'',
                                   Decoded = Inr (emptyResp\<lparr>OutputText := '' ''\<rparr>)\<rparr>,
                     Elapsed = 5 :: duration\<rparr>\<close>
  let ?w = "\<lparr>Args = [''ai'', ''-n'', ''2'', ''noop''], Token = ''tok'', Context = [(''shell'', ''sh'')],
          Net = (\<lambda>token prompt k. ?c), Stdin = ''1'', Run = (\<lambda>command. Finished)\<rparr>"
  have p: "parseArgs [''ai'', ''-n'', ''2'', ''noop''] ''tok'' = Inr (False, 2, ''noop'')"
    by code_simp
  then have h1: "parseArgs (Args ?w) (Token ?w) = Inr (False, 2, ''noop'')" by simp
  have san: "sanitizeToSingleCommand '' '' = []" by code_simp
  have cmds: "Commands (fst (makeAPICall False ?c)) = []"
    by (simp add: makeAPICall_def responseCandidates_def extractCandidates_def emptyResp_def
        sanitizeAll_def san)
  have ok: "callFailure ?c = None" by (simp add: callFailure_def)
  have h3: "\<forall>c\<in>set (map (Net ?w (Token ?w) (buildPrompt ''noop'' (Context ?w))) [0..<nat 2]).
              callFailure c = None \<and> Commands (fst (makeAPICall False c)) = []"
    using cmds ok by simp
  from no_commands_generated [OF h1 refl h3]
  have "main ?w = \<lparr>exitCode = 1, stderr = [Message ''No commands generated''], stdout = [],
                     requests = length (map (Net ?w (Token ?w) (buildPrompt ''noop'' (Context ?w))) [0..<nat 2]),
                     executed = None\<rparr>"
    by blast
  then show ?thesis by simp
qed

section \<open>Reference vectors of the sanitizer (C9)\<close>

text \<open>
  C9: the sanitizer maps a fenced \<open>bash\<close> block holding \<open>ls -la\<close>, the text
  \<open>ls -la\<close> below a comment line, and \<open>ls -la\<close> behind the prompt marker \<open>$\<close>, each
  to \<open>ls -la\<close>.
\<close>

theorem sanitize_reference_vectors:
  "sanitizeToSingleCommand ''```bash\<newline>ls -la\<newline>```'' = ''ls -la''
   \<and> sanitizeToSingleCommand ''# a note\<newline>ls -la'' = ''ls -la''
   \<and> sanitizeToSingleCommand ''$ ls -la'' = ''ls -la''"
  by code_simp

section \<open>Sanitized commands are single trimmed lines (C10)\<close>

text \<open>
  C10: for every input the sanitizer's output holds no line feed and equals its
  own \<open>TrimSpace\<close>; hence every command in a per-call list or in the aggregated
  list that \<open>getCommands\<close> returns is a single trimmed line.
\<close>

theorem sanitized_commands_single_trimmed_line:
  "CHR ''\<newline>'' \<notin> set (sanitizeToSingleCommand s)
   \<and> TrimSpace (sanitizeToSingleCommand s) = sanitizeToSingleCommand s
   \<and> (\<forall>results r cmd.
         getCommands verbose calls = Inr results \<longrightarrow> r \<in> set results \<longrightarrow> cmd \<in> set (Commands r)
         \<longrightarrow> CHR ''\<newline>'' \<notin> set cmd \<and> TrimSpace cmd = cmd)"
proof (intro conjI allI impI)
  show "CHR ''\<newline>'' \<notin> set (sanitizeToSingleCommand s)" by (rule sanitize_no_newline)
  show "TrimSpace (sanitizeToSingleCommand s) = sanitizeToSingleCommand s" by (rule sanitize_trimmed)
next
  fix results r cmd
  assume "getCommands verbose calls = Inr results" "r \<in> set results" "cmd \<in> set (Commands r)"
  then obtain x where x: "cmd = sanitizeToSingleCommand x"
    using getCommands_commands by blast
  show "CHR ''\<newline>'' \<notin> set cmd" by (simp add: x sanitize_no_newline)
  show "TrimSpace cmd = cmd" by (simp add: x sanitize_trimmed)
qed

text \<open>
  A run of one call whose output text is a padded prompt line: both command lists
  hold the single trimmed line \<open>ls -la\<close>.
\<close>

theorem sanitized_commands_single_trimmed_line_witness:
  \<open>getCommands False
     [\<lparr>Reply = Inr \<lparr>StatusCode = 200, Body = Some ''{"output_text":"  $ ls -la  "}'',
                     Decoded = Inr (emptyResp\<lparr>OutputText := ''  $ ls -la  ''\<rparr>)\<rparr>,
       Elapsed = 7\<rparr>]
   = Inr [\<lparr>Commands = [''ls -la''], Duration = 7, RawResponse = [], Error = None\<rparr>,
          \<lparr>Commands = [''ls -la''], Duration = 7, RawResponse = [], Error = None\<rparr>]
   \<and> CHR ''\<newline>'' \<notin> set ''ls -la'' \<and> TrimSpace ''ls -la'' = ''ls -la''\<close>
proof -
  let ?calls = \<open>[\<lparr>Reply = Inr \<lparr>StatusCode = 200, Body = Some ''{"output_text":"  $ ls -la  "}'',
                     Decoded = Inr (emptyResp\<lparr>OutputText := ''  $ ls -la  ''\<rparr>)\<rparr>,
       Elapsed = 7 :: duration\<rparr>]\<close>
  let ?r = "\<lparr>Commands = [''ls -la''], Duration = 7 :: duration, RawResponse = [],
             Error = None :: goError option\<rparr>"
  have san: "sanitizeToSingleCommand ''  $ ls -la  '' = ''ls -la''"
    by code_simp
  have run: "getCommands False ?calls = Inr [?r, ?r]"
    by (simp add: getCommands_def makeAPICall_def responseCandidates_def extractCandidates_def
        emptyResp_def sanitizeAll_def san totalDuration_def)
  have "CHR ''\<newline>'' \<notin> set ''ls -la'' \<and> TrimSpace ''ls -la'' = ''ls -la''"
    using sanitized_commands_single_trimmed_line [of "[]" False ?calls] run
    by (elim conjE allE [of _ "[?r, ?r]"] allE [of _ ?r] allE [of _ "''ls -la''"]) simp
  with run show ?thesis by simp
qed

end
